theory Spec2Isabelle
  imports Complex_Main "HOL-Library.Multiset"
begin

section \<open>CityWalker sample-construction pipeline\<close>

text \<open>
  A shallow embedding of \<^verbatim>\<open>src/data/citywalk_dataset.py\<close> (the video source) and
  \<^verbatim>\<open>src/data/urbannav_dataset.py\<close> (the robot source). Python integers are \<open>int\<close>;
  indices produced by \<^verbatim>\<open>enumerate\<close> and \<^verbatim>\<open>range\<close> are \<open>nat\<close>; every exception
  the modelled code can raise is a value of \<open>py_error\<close>. The entries of a NumPy integer
  array are 64-bit and wrap around; the arrival label is computed with the roundings of
  binary64 arithmetic; the rigid transforms are idealised over the reals, with an explicit
  \<open>NaN\<close> where the code tests for it.
\<close>

subsection \<open>Python and NumPy primitives\<close>

datatype py_error =
  ValueError | IndexError | FileNotFoundError | AssertionError | ZeroDivisionError |
  OverflowError

text \<open>\<^verbatim>\<open>xs[a:b]\<close> with Python's treatment of negative and out-of-range bounds.\<close>

definition slice_index :: "nat \<Rightarrow> int \<Rightarrow> nat" where
  "slice_index n i = (if i < 0 then nat (max 0 (int n + i)) else min (nat i) n)"

definition py_slice :: "'a list \<Rightarrow> int \<Rightarrow> int \<Rightarrow> 'a list" where
  "py_slice xs a b =
     (let lo = slice_index (length xs) a; hi = slice_index (length xs) b
      in take (hi - lo) (drop lo xs))"

text \<open>\<^verbatim>\<open>xs[-1]\<close>: the last element, \<^verbatim>\<open>IndexError\<close> on an empty sequence.\<close>

definition py_last :: "'a list \<Rightarrow> py_error + 'a" where
  "py_last xs = (if xs = [] then Inl IndexError else Inr (last xs))"

text \<open>\<^verbatim>\<open>range(n)\<close> for a Python integer \<open>n\<close> (empty when \<open>n \<le> 0\<close>).\<close>

definition py_range :: "int \<Rightarrow> nat list" where
  "py_range n = [0..<nat n]"

subsection \<open>Configuration\<close>

text \<open>
  The options both datasets read from \<^verbatim>\<open>cfg\<close>. The arrival threshold is a distance for
  the video source and an integer offset for the robot source (it is an argument of
  \<^verbatim>\<open>random.randint\<close> there), hence the type parameter.
\<close>

record 'thr config =
  context_size :: int
  wp_length :: int
  search_window :: int
  video_fps :: int
  pose_fps :: int
  target_fps :: int
  input_noise :: real
  arrived_threshold :: 'thr
  arrived_prob :: real
  num_train :: int
  num_val :: int
  num_test :: int

subsection \<open>Usable counts and the removal of empty sequences\<close>

text \<open>
  \<^verbatim>\<open>usable = pose.shape[0] - self.context_size - max(self.search_window, self.wp_length)\<close>
  \<^verbatim>\<open>self.count.append(max(usable, 0))\<close>
\<close>

definition usable_count :: "('thr, 'z) config_scheme \<Rightarrow> 'p list \<Rightarrow> int" where
  "usable_count cfg pose =
     max (int (length pose) - context_size cfg - max (search_window cfg) (wp_length cfg)) 0"

text \<open>\<^verbatim>\<open>valid_indices = [i for i, c in enumerate(self.count) if c > 0]\<close>\<close>

definition valid_indices :: "int list \<Rightarrow> nat list" where
  "valid_indices counts = filter (\<lambda>i. counts ! i > 0) [0..<length counts]"

text \<open>\<^verbatim>\<open>[xs[i] for i in valid_indices]\<close>\<close>

definition select_indices :: "'a list \<Rightarrow> nat list \<Rightarrow> 'a list" where
  "select_indices xs idx = map (\<lambda>i. xs ! i) idx"

subsection \<open>The look-up table and the per-sequence ranges\<close>

text \<open>
  The loop of both constructors:
  \<^verbatim>\<open>
  idx_counter = 0
  for video_idx, count in enumerate(self.count):
      start_idx = idx_counter
      for pose_start in range(count):
          self.lut.append((video_idx, pose_start))
          idx_counter += 1
      end_idx = idx_counter
      self.video_ranges.append((start_idx, end_idx))
  \<close>
  The state of the loop is the table, the ranges and the counter; \<open>build_from\<close> runs the
  outer loop from sequence number \<open>video_idx\<close>.
\<close>

record lut_state =
  lut :: "(nat \<times> nat) list"
  ranges :: "(nat \<times> nat) list"
  idx_counter :: nat

fun inner_loop :: "nat \<Rightarrow> nat list \<Rightarrow> lut_state \<Rightarrow> lut_state" where
  "inner_loop video_idx [] st = st"
| "inner_loop video_idx (pose_start # rest) st =
     inner_loop video_idx rest
       (st\<lparr>lut := lut st @ [(video_idx, pose_start)], idx_counter := idx_counter st + 1\<rparr>)"

fun build_from :: "nat \<Rightarrow> int list \<Rightarrow> lut_state \<Rightarrow> lut_state" where
  "build_from video_idx [] st = st"
| "build_from video_idx (c # rest) st =
     (let start_idx = idx_counter st;
          st1 = inner_loop video_idx (py_range c) st;
          end_idx = idx_counter st1
      in build_from (Suc video_idx) rest (st1\<lparr>ranges := ranges st1 @ [(start_idx, end_idx)]\<rparr>))"

text \<open>The loop followed by \<^verbatim>\<open>assert len(self.lut) > 0, "No usable samples found."\<close>\<close>

definition build_lut :: "int list \<Rightarrow> py_error + lut_state" where
  "build_lut counts =
     (let st = build_from 0 counts \<lparr>lut = [], ranges = [], idx_counter = 0\<rparr>
      in if length (lut st) > 0 then Inr st else Inl AssertionError)"

subsection \<open>Properties of the look-up table\<close>

lemma inner_loop_lut:
  "lut (inner_loop v ps st) = lut st @ map (\<lambda>p. (v, p)) ps"
  by (induction ps arbitrary: st) simp_all

lemma inner_loop_ranges: "ranges (inner_loop v ps st) = ranges st"
  by (induction ps arbitrary: st) simp_all

lemma inner_loop_counter: "idx_counter (inner_loop v ps st) = idx_counter st + length ps"
  by (induction ps arbitrary: st) simp_all

fun lut_spec :: "nat \<Rightarrow> int list \<Rightarrow> (nat \<times> nat) list" where
  "lut_spec v [] = []"
| "lut_spec v (c # cs) = map (Pair v) (py_range c) @ lut_spec (Suc v) cs"

fun ranges_spec :: "nat \<Rightarrow> int list \<Rightarrow> (nat \<times> nat) list" where
  "ranges_spec k [] = []"
| "ranges_spec k (c # cs) = (k, k + nat c) # ranges_spec (k + nat c) cs"

lemma build_from_lut:
  "lut (build_from v cs st) = lut st @ lut_spec v cs"
  by (induction cs arbitrary: v st) (simp_all add: Let_def inner_loop_lut inner_loop_ranges)

lemma build_from_ranges:
  "ranges (build_from v cs st) = ranges st @ ranges_spec (idx_counter st) cs"
  by (induction cs arbitrary: v st)
     (simp_all add: Let_def inner_loop_counter inner_loop_ranges py_range_def)

lemma build_from_counter:
  "idx_counter (build_from v cs st) = idx_counter st + (\<Sum>c\<leftarrow>cs. nat c)"
  by (induction cs arbitrary: v st)
     (simp_all add: Let_def inner_loop_counter py_range_def)

lemma lut_spec_concat:
  "lut_spec v cs = concat (map (\<lambda>i. map (Pair (v + i)) [0..<nat (cs ! i)]) [0..<length cs])"
proof (induction cs arbitrary: v)
  case Nil
  then show ?case by simp
next
  case (Cons c cs)
  have "[0..<length (c # cs)] = 0 # map Suc [0..<length cs]"
    by (simp add: upt_conv_Cons map_Suc_upt del: upt_Suc)
  then show ?case
    by (simp add: Cons.IH py_range_def comp_def del: upt_Suc)
qed

lemma length_lut_spec: "length (lut_spec v cs) = (\<Sum>c\<leftarrow>cs. nat c)"
  by (induction cs arbitrary: v) (simp_all add: py_range_def)

lemma length_ranges_spec: "length (ranges_spec k cs) = length cs"
  by (induction cs arbitrary: k) simp_all

lemma ranges_spec_nth:
  "i < length cs \<Longrightarrow>
   ranges_spec k cs ! i = (k + (\<Sum>j<i. nat (cs ! j)), k + (\<Sum>j<Suc i. nat (cs ! j)))"
proof (induction cs arbitrary: k i)
  case Nil
  then show ?case by simp
next
  case (Cons c cs)
  show ?case
  proof (cases i)
    case 0
    then show ?thesis by simp
  next
    case (Suc i')
    with Cons.prems have "i' < length cs" by simp
    from Cons.IH [OF this, of "k + nat c"] Suc show ?thesis
      by (simp add: sum.lessThan_Suc_shift del: sum.lessThan_Suc)
  qed
qed

lemma sum_list_nat_nonneg:
  "\<forall>c\<in>set cs. 0 \<le> c \<Longrightarrow> int (\<Sum>c\<leftarrow>cs. nat c) = sum_list cs"
  by (induction cs) simp_all

lemma sum_nth_nat_nonneg:
  "\<forall>c\<in>set cs. 0 \<le> c \<Longrightarrow> i \<le> length cs \<Longrightarrow> int (\<Sum>j<i. nat (cs ! j)) = (\<Sum>j<i. cs ! j)"
  by (induction i) simp_all

text \<open>
  Claim C4. For usable counts \<open>c\<^sub>0 \<dots> c\<^sub>n\<^sub>-\<^sub>1\<close> (non-negative), the flat index is the
  concatenation, in sequence order, of \<open>(i,0) \<dots> (i,c\<^sub>i-1)\<close>; the range recorded for
  sequence \<open>i\<close> is \<open>[c\<^sub>0+\<dots>+c\<^sub>i\<^sub>-\<^sub>1, c\<^sub>0+\<dots>+c\<^sub>i)\<close>; the length of the index is the sum of
  the counts; and construction fails, with the assertion error, exactly when that sum
  is zero.
\<close>

theorem global_index_structure:
  assumes "\<forall>c\<in>set counts. 0 \<le> c"
  shows "case build_lut counts of
           Inl e \<Rightarrow> e = AssertionError \<and> sum_list counts = 0
         | Inr st \<Rightarrow>
             sum_list counts \<noteq> 0 \<and>
             lut st = concat (map (\<lambda>i. map (Pair i) [0..<nat (counts ! i)]) [0..<length counts]) \<and>
             length (ranges st) = length counts \<and>
             (\<forall>i<length counts.
                int (fst (ranges st ! i)) = (\<Sum>j<i. counts ! j) \<and>
                int (snd (ranges st ! i)) = (\<Sum>j<Suc i. counts ! j)) \<and>
             int (length (lut st)) = sum_list counts"
proof -
  define st where "st = build_from 0 counts \<lparr>lut = [], ranges = [], idx_counter = 0\<rparr>"
  have l: "lut st = lut_spec 0 counts"
    by (simp add: st_def build_from_lut)
  have r: "ranges st = ranges_spec 0 counts"
    by (simp add: st_def build_from_ranges)
  have len: "int (length (lut st)) = sum_list counts"
    using assms by (simp add: l length_lut_spec sum_list_nat_nonneg)
  have rng: "int (fst (ranges st ! i)) = (\<Sum>j<i. counts ! j) \<and>
             int (snd (ranges st ! i)) = (\<Sum>j<Suc i. counts ! j)" if "i < length counts" for i
  proof -
    have s1: "int (\<Sum>j<i. nat (counts ! j)) = (\<Sum>j<i. counts ! j)"
      using sum_nth_nat_nonneg [OF assms, of i] that by simp
    have s2: "int (\<Sum>j<Suc i. nat (counts ! j)) = (\<Sum>j<Suc i. counts ! j)"
      using sum_nth_nat_nonneg [OF assms, of "Suc i"] that by simp
    have "ranges st ! i = ((\<Sum>j<i. nat (counts ! j)), (\<Sum>j<Suc i. nat (counts ! j)))"
      using ranges_spec_nth [OF that, of 0] by (simp only: r add_0)
    then show ?thesis
      using s1 s2 by (simp only: fst_conv snd_conv)
  qed
  show ?thesis
  proof (cases "length (lut st) > 0")
    case True
    then have b: "build_lut counts = Inr st"
      by (simp add: build_lut_def st_def Let_def)
    from True len have "sum_list counts \<noteq> 0" by (cases "lut st") auto
    with b l r len rng show ?thesis
      by (simp add: lut_spec_concat length_ranges_spec del: sum.lessThan_Suc)
  next
    case False
    then have b: "build_lut counts = Inl AssertionError"
      by (simp add: build_lut_def st_def Let_def)
    from False len have "sum_list counts = 0" by (cases "lut st") auto
    with b show ?thesis by simp
  qed
qed



theorem global_index_structure_witness:
  "build_lut [2, 0, 1] =
     Inr \<lparr>lut = [(0, 0), (0, 1), (2, 0)], ranges = [(0, 2), (2, 2), (2, 3)], idx_counter = 3\<rparr> \<and>
   build_lut [0, 0] = Inl AssertionError"
proof -
  have a: "build_lut [2, 0, 1] =
     Inr \<lparr>lut = [(0, 0), (0, 1), (2, 0)], ranges = [(0, 2), (2, 2), (2, 3)], idx_counter = 3\<rparr>"
    by (simp add: build_lut_def py_range_def Let_def upt_conv_Cons)
  have b: "build_lut [0, 0] = Inl AssertionError"
    by (simp add: build_lut_def py_range_def Let_def)
  from a b global_index_structure [of "[2, 0, 1]"] global_index_structure [of "[0, 0]"]
  show ?thesis by simp
qed

subsection \<open>Loading a pose log of the video source\<close>

text \<open>A component of a loaded array: a finite value or \<^verbatim>\<open>nan\<close>.\<close>

datatype pyfloat = NaN | Fin real

definition isnan :: "pyfloat \<Rightarrow> bool" where
  "isnan x = (case x of NaN \<Rightarrow> True | Fin _ \<Rightarrow> False)"

text \<open>\<^verbatim>\<open>rows[::k]\<close> for a step \<open>k \<ge> 1\<close>: the rows at positions \<open>0, k, 2k, \<dots>\<close>\<close>

function every_nth :: "nat \<Rightarrow> 'a list \<Rightarrow> 'a list" where
  "every_nth k [] = []"
| "every_nth k (x # xs) = x # every_nth k (drop (k - 1) xs)"
  by pat_completeness auto
termination
  by (relation "measure (\<lambda>(k, xs). length xs)") auto

text \<open>
  \<^verbatim>\<open>pose = np.loadtxt(f, delimiter=" ")[::max(1, self.pose_fps // self.target_fps), 1:]\<close>
  where \<open>rows\<close> are the rows of numbers of the file \<open>f\<close>, in order. The three steps of the
  line, in the order Python evaluates them:

    \<^item> \<^verbatim>\<open>np.loadtxt\<close> raises \<^verbatim>\<open>ValueError\<close> when the rows do not all have the same number of
      columns. It squeezes its result: a file with no row, with a single row or with a
      single column does not give a two-dimensional array.
    \<^item> The subscript is evaluated next; the integer division raises on a zero target rate.
    \<^item> The subscript has two entries, so indexing an array of fewer than two dimensions
      raises \<^verbatim>\<open>IndexError\<close>. On a two-dimensional array \<^verbatim>\<open>[::k, 1:]\<close> keeps every \<open>k\<close>-th row
      and drops the time-stamp column.
\<close>

definition same_columns :: "'a list list \<Rightarrow> bool" where
  "same_columns rows = (case rows of [] \<Rightarrow> True | r # rs \<Rightarrow> list_all (\<lambda>q. length q = length r) rs)"

definition two_dimensional :: "'a list list \<Rightarrow> bool" where
  "two_dimensional rows = (case rows of [] \<Rightarrow> False | r # rs \<Rightarrow> rs \<noteq> [] \<and> 2 \<le> length r)"

definition decimate :: "('thr, 'z) config_scheme \<Rightarrow> 'a list list \<Rightarrow> py_error + 'a list list" where
  "decimate cfg rows =
     (if same_columns rows then
        (if target_fps cfg = 0 then Inl ZeroDivisionError
         else if two_dimensional rows then
           Inr (map (drop 1) (every_nth (nat (max 1 (pose_fps cfg div target_fps cfg))) rows))
         else Inl IndexError)
      else Inl ValueError)"

text \<open>\<^verbatim>\<open>np.isnan(pose).any(axis=1)\<close>: one flag per row.\<close>

definition isnan_any_axis1 :: "pyfloat list list \<Rightarrow> bool list" where
  "isnan_any_axis1 pose = map (list_ex isnan) pose"

text \<open>\<^verbatim>\<open>np.any\<close> of a list of flags.\<close>

definition np_any :: "bool list \<Rightarrow> bool" where
  "np_any flags = list_ex (\<lambda>b. b) flags"

text \<open>
  \<^verbatim>\<open>np.argmin\<close>: the index of the first occurrence of the least element
  (\<^verbatim>\<open>ValueError\<close> on an empty array). On flags, \<open>False < True\<close>. The loop keeps the best
  value seen, its index and the running index.
\<close>

fun argmin_from :: "'a::linorder \<Rightarrow> nat \<Rightarrow> nat \<Rightarrow> 'a list \<Rightarrow> nat" where
  "argmin_from best best_idx i [] = best_idx"
| "argmin_from best best_idx i (x # xs) =
     (if x < best then argmin_from x i (Suc i) xs else argmin_from best best_idx (Suc i) xs)"

definition np_argmin :: "'a::linorder list \<Rightarrow> py_error + nat" where
  "np_argmin xs = (case xs of [] \<Rightarrow> Inl ValueError | x # rest \<Rightarrow> Inr (argmin_from x 0 1 rest))"

text \<open>
  \<^verbatim>\<open>
  pose_nan = np.isnan(pose).any(axis=1)
  if np.any(pose_nan):
      first_nan_idx = np.argmin(pose_nan)
      pose = pose[:first_nan_idx]
  \<close>
\<close>

definition truncate_nan :: "pyfloat list list \<Rightarrow> py_error + pyfloat list list" where
  "truncate_nan pose =
     (let pose_nan = isnan_any_axis1 pose
      in if np_any pose_nan
         then (case np_argmin pose_nan of
                 Inl e \<Rightarrow> Inl e
               | Inr first_nan_idx \<Rightarrow> Inr (take first_nan_idx pose))
         else Inr pose)"

definition load_pose :: "('thr, 'z) config_scheme \<Rightarrow> pyfloat list list \<Rightarrow> py_error + pyfloat list list" where
  "load_pose cfg rows =
     (case decimate cfg rows of Inl e \<Rightarrow> Inl e | Inr pose \<Rightarrow> truncate_nan pose)"

text \<open>
  What the specification asks of the truncation: the rows strictly before the first row
  with a \<^verbatim>\<open>nan\<close> component (all rows when there is none).
\<close>

definition rows_before_first_nan :: "pyfloat list list \<Rightarrow> pyfloat list list" where
  "rows_before_first_nan pose = takeWhile (\<lambda>row. \<not> list_ex isnan row) pose"

lemma argmin_from_bool_True:
  "argmin_from True bi i flags =
     (if list_ex Not flags then i + length (takeWhile (\<lambda>b. b) flags) else bi)"
proof (induction flags arbitrary: bi i)
  case Nil
  then show ?case by simp
next
  case (Cons b flags)
  have f: "argmin_from False j k fs = j" for j k fs
    by (induction fs arbitrary: k) simp_all
  show ?case
    by (cases b) (simp_all add: Cons.IH f)
qed

lemma argmin_from_bool_False: "argmin_from False j k fs = j"
  by (induction fs arbitrary: k) simp_all

text \<open>What the truncation does: with a \<^verbatim>\<open>nan\<close> row present it keeps the leading run of
  \<^verbatim>\<open>nan\<close> rows (the rows before the first row \<^emph>\<open>without\<close> \<^verbatim>\<open>nan\<close>), and nothing when every
  row has one.\<close>

lemma truncate_nan_eq:
  "truncate_nan pose =
     Inr (if list_ex (list_ex isnan) pose
          then (if list_all (list_ex isnan) pose then []
                else takeWhile (list_ex isnan) pose)
          else pose)"
proof (cases pose)
  case Nil
  then show ?thesis
    by (simp add: truncate_nan_def isnan_any_axis1_def np_any_def)
next
  case (Cons row rest)
  have ex: "list_ex (\<lambda>b. b) (map (list_ex isnan) xs) = list_ex (list_ex isnan) xs" for xs :: "pyfloat list list"
    by (induction xs) simp_all
  have exn: "list_ex Not (map (list_ex isnan) xs) = (\<not> list_all (list_ex isnan) xs)" for xs :: "pyfloat list list"
    by (induction xs) simp_all
  have tw: "length (takeWhile (\<lambda>b. b) (map (list_ex isnan) xs)) = length (takeWhile (list_ex isnan) xs)"
    for xs :: "pyfloat list list"
    by (induction xs) simp_all
  have tk: "take (length (takeWhile P xs)) xs = takeWhile P xs" for P and xs :: "pyfloat list list"
    by (induction xs) simp_all
  show ?thesis
  proof (cases "list_ex isnan row")
    case True
    have "take (Suc (length (takeWhile (list_ex isnan) rest))) (row # rest) =
          row # takeWhile (list_ex isnan) rest"
      by (simp add: tk)
    with True Cons show ?thesis
      by (simp add: truncate_nan_def isnan_any_axis1_def np_any_def np_argmin_def Let_def
          argmin_from_bool_True ex exn tw)
  next
    case False
    with Cons show ?thesis
      by (simp add: truncate_nan_def isnan_any_axis1_def np_any_def np_argmin_def Let_def
          argmin_from_bool_False ex)
  qed
qed

text \<open>
  Claim C1. The specification keeps the decimated rows strictly before the first row with
  a \<^verbatim>\<open>nan\<close> component. The code takes \<^verbatim>\<open>np.argmin\<close> of the flags, the index of the first row
  \<^emph>\<open>without\<close> \<^verbatim>\<open>nan\<close>: on a log whose third row holds the first \<^verbatim>\<open>nan\<close> it keeps no row at
  all, where the two leading rows should stay; on a log that starts with a \<^verbatim>\<open>nan\<close> row it
  keeps that row.
\<close>

theorem nan_truncation_divergence:
  "load_pose \<lparr>context_size = 1, wp_length = 1, search_window = 1, video_fps = 30, pose_fps = 5,
      target_fps = 5, input_noise = 0, arrived_threshold = (1::real), arrived_prob = 0,
      num_train = 1, num_val = 0, num_test = 0\<rparr>
     [[Fin 0, Fin 1, Fin 0, Fin 0, Fin 0, Fin 0, Fin 0, Fin 1],
      [Fin 1, Fin 2, Fin 0, Fin 0, Fin 0, Fin 0, Fin 0, Fin 1],
      [Fin 2, NaN, Fin 0, Fin 0, Fin 0, Fin 0, Fin 0, Fin 1],
      [Fin 3, Fin 4, Fin 0, Fin 0, Fin 0, Fin 0, Fin 0, Fin 1]] = Inr [] \<and>
   rows_before_first_nan
     [[Fin 1, Fin 0, Fin 0, Fin 0, Fin 0, Fin 0, Fin 1],
      [Fin 2, Fin 0, Fin 0, Fin 0, Fin 0, Fin 0, Fin 1],
      [NaN, Fin 0, Fin 0, Fin 0, Fin 0, Fin 0, Fin 1],
      [Fin 4, Fin 0, Fin 0, Fin 0, Fin 0, Fin 0, Fin 1]] =
     [[Fin 1, Fin 0, Fin 0, Fin 0, Fin 0, Fin 0, Fin 1],
      [Fin 2, Fin 0, Fin 0, Fin 0, Fin 0, Fin 0, Fin 1]] \<and>
   load_pose \<lparr>context_size = 1, wp_length = 1, search_window = 1, video_fps = 30, pose_fps = 5,
      target_fps = 5, input_noise = 0, arrived_threshold = (1::real), arrived_prob = 0,
      num_train = 1, num_val = 0, num_test = 0\<rparr>
     [[Fin 0, NaN, Fin 0, Fin 0, Fin 0, Fin 0, Fin 0, Fin 1],
      [Fin 1, Fin 2, Fin 0, Fin 0, Fin 0, Fin 0, Fin 0, Fin 1]] =
     Inr [[NaN, Fin 0, Fin 0, Fin 0, Fin 0, Fin 0, Fin 1]]"
  by (simp add: load_pose_def decimate_def same_columns_def two_dimensional_def
      truncate_nan_def isnan_any_axis1_def np_any_def np_argmin_def isnan_def
      rows_before_first_nan_def Let_def)

subsection \<open>Construction of the video dataset\<close>

text \<open>
  \<^verbatim>\<open>CityWalkDataset.__init__\<close>. The file system enters through four parameters:
  \<open>pose_path\<close>, the sorted list of \<^verbatim>\<open>.txt\<close> paths of the pose directory; \<open>video_of\<close>, the
  video path derived from a pose path; \<open>exists\<close>, \<^verbatim>\<open>os.path.exists\<close>; and \<open>loadtxt\<close>, the
  array \<^verbatim>\<open>np.loadtxt\<close> reads from a path.
\<close>

record 'row cw_dataset =
  cw_mode :: string
  cw_poses :: "'row list list"
  cw_video_path :: "string list"
  cw_count :: "int list"
  cw_lut :: "(nat \<times> nat) list"
  cw_video_ranges :: "(nat \<times> nat) list"

text \<open>
  \<^verbatim>\<open>
  if mode == 'train':   self.pose_path = self.pose_path[:cfg.data.num_train]
  elif mode == 'val':   self.pose_path = self.pose_path[cfg.data.num_train:cfg.data.num_train + cfg.data.num_val]
  else:                 raise ValueError(f"Invalid mode {mode}")
  \<close>
\<close>

definition cw_select_split ::
  "('thr, 'z) config_scheme \<Rightarrow> string \<Rightarrow> string list \<Rightarrow> py_error + string list" where
  "cw_select_split cfg mode pose_path =
     (if mode = ''train'' then Inr (py_slice pose_path 0 (num_train cfg))
      else if mode = ''val'' then
        Inr (py_slice pose_path (num_train cfg) (num_train cfg + num_val cfg))
      else Inl ValueError)"

text \<open>The loop over \<^verbatim>\<open>self.pose_path\<close> that collects the video paths and raises on a
  missing video.\<close>

fun cw_video_paths ::
  "(string \<Rightarrow> string) \<Rightarrow> (string \<Rightarrow> bool) \<Rightarrow> string list \<Rightarrow> py_error + string list" where
  "cw_video_paths video_of exists [] = Inr []"
| "cw_video_paths video_of exists (f # fs) =
     (let video = video_of f
      in if \<not> exists video then Inl FileNotFoundError
         else (case cw_video_paths video_of exists fs of
                 Inl e \<Rightarrow> Inl e
               | Inr vs \<Rightarrow> Inr (video # vs)))"

text \<open>The loop that loads, decimates and truncates every pose log.\<close>

fun cw_load_poses ::
  "('thr, 'z) config_scheme \<Rightarrow> (string \<Rightarrow> pyfloat list list) \<Rightarrow> string list \<Rightarrow>
   py_error + pyfloat list list list" where
  "cw_load_poses cfg loadtxt [] = Inr []"
| "cw_load_poses cfg loadtxt (f # fs) =
     (case load_pose cfg (loadtxt f) of
        Inl e \<Rightarrow> Inl e
      | Inr pose \<Rightarrow>
          (case cw_load_poses cfg loadtxt fs of
             Inl e \<Rightarrow> Inl e
           | Inr ps \<Rightarrow> Inr (pose # ps)))"

text \<open>Lines 80 to 100: the usable counts, the removal of the sequences without usable
  samples, and the look-up table.\<close>

definition cw_index ::
  "('thr, 'z) config_scheme \<Rightarrow> string \<Rightarrow> string list \<Rightarrow> 'row list list \<Rightarrow>
   py_error + 'row cw_dataset" where
  "cw_index cfg mode video_path poses =
     (let counts = map (usable_count cfg) poses;
          valid = valid_indices counts;
          poses' = select_indices poses valid;
          video_path' = select_indices video_path valid;
          counts' = select_indices counts valid
      in case build_lut counts' of
           Inl e \<Rightarrow> Inl e
         | Inr st \<Rightarrow>
             Inr \<lparr>cw_mode = mode, cw_poses = poses', cw_video_path = video_path',
                  cw_count = counts', cw_lut = lut st, cw_video_ranges = ranges st\<rparr>)"

definition cw_init ::
  "('thr, 'z) config_scheme \<Rightarrow> string \<Rightarrow> string list \<Rightarrow> (string \<Rightarrow> string) \<Rightarrow>
   (string \<Rightarrow> bool) \<Rightarrow> (string \<Rightarrow> pyfloat list list) \<Rightarrow> py_error + pyfloat list cw_dataset" where
  "cw_init cfg mode pose_path video_of exists loadtxt =
     (case cw_select_split cfg mode pose_path of
        Inl e \<Rightarrow> Inl e
      | Inr split \<Rightarrow>
          (case cw_video_paths video_of exists split of
             Inl e \<Rightarrow> Inl e
           | Inr video_path \<Rightarrow>
               (case cw_load_poses cfg loadtxt split of
                  Inl e \<Rightarrow> Inl e
                | Inr poses \<Rightarrow> cw_index cfg mode video_path poses)))"

subsection \<open>Construction of the robot dataset\<close>

text \<open>\<^verbatim>\<open>str.strip()\<close> and \<^verbatim>\<open>str.split(',')\<close> on ASCII lines.\<close>

definition is_space :: "char \<Rightarrow> bool" where
  "is_space c = (c \<in> set [CHR 0x09, CHR 0x0A, CHR 0x0B, CHR 0x0C, CHR 0x0D,
                            CHR 0x1C, CHR 0x1D, CHR 0x1E, CHR 0x1F, CHR 0x20])"

definition strip :: "string \<Rightarrow> string" where
  "strip s = rev (dropWhile is_space (rev (dropWhile is_space s)))"

fun split_on :: "char \<Rightarrow> string \<Rightarrow> string list" where
  "split_on c [] = [[]]"
| "split_on c (x # xs) =
     (if x = c then [] # split_on c xs
      else (case split_on c xs of
              [] \<Rightarrow> [[x]]
            | t # ts \<Rightarrow> (x # t) # ts))"

text \<open>
  \<^verbatim>\<open>float(tok)\<close> for each token in turn; \<open>py_float\<close> is the parse of one token, \<open>None\<close>
  where \<^verbatim>\<open>float\<close> raises \<^verbatim>\<open>ValueError\<close>.
\<close>

fun floats :: "(string \<Rightarrow> real option) \<Rightarrow> string list \<Rightarrow> py_error + real list" where
  "floats py_float [] = Inr []"
| "floats py_float (t # ts) =
     (case py_float t of
        None \<Rightarrow> Inl ValueError
      | Some v \<Rightarrow> (case floats py_float ts of Inl e \<Rightarrow> Inl e | Inr vs \<Rightarrow> Inr (v # vs)))"

text \<open>
  \<^verbatim>\<open>
  def latlon_to_local(self, lat, lon, lat0, lon0):
      R_earth = 6378137
      lat_rad = np.radians(lat); lon_rad = np.radians(lon)
      lat0_rad = np.radians(lat0); lon0_rad = np.radians(lon0)
      dlat = lat_rad - lat0_rad; dlon = lon_rad - lon0_rad
      x = dlon * np.cos((lat_rad + lat0_rad) / 2) * R_earth
      y = dlat * R_earth
      return x, y
  \<close>
\<close>

definition radians :: "real \<Rightarrow> real" where
  "radians d = d * pi / 180"

definition latlon_to_local :: "real \<Rightarrow> real \<Rightarrow> real \<Rightarrow> real \<Rightarrow> real \<times> real" where
  "latlon_to_local lat lon lat0 lon0 =
     (let R_earth = 6378137;
          lat_rad = radians lat; lon_rad = radians lon;
          lat0_rad = radians lat0; lon0_rad = radians lon0;
          dlat = lat_rad - lat0_rad; dlon = lon_rad - lon0_rad;
          x = dlon * cos ((lat_rad + lat0_rad) / 2) * R_earth;
          y = dlat * R_earth
      in (x, y))"

text \<open>The lists one file's loop appends to, and the reference fix (\<open>None\<close> until the
  first GPS line is parsed).\<close>

record parse_state =
  gps_positions :: "real list list"
  poses :: "real list list"
  images :: "string list"
  ref :: "(real \<times> real \<times> real) option"

text \<open>
  The body of \<^verbatim>\<open>for i in range(0, len(lines), 2)\<close> for the pair \<^verbatim>\<open>lines[i]\<close>, \<^verbatim>\<open>lines[i+1]\<close>.
  Each \<^verbatim>\<open>continue\<close> returns the state reached so far: the GPS position is appended
  before the pose line is examined.
\<close>

definition parse_pair ::
  "(string \<Rightarrow> real option) \<Rightarrow> string \<Rightarrow> string \<Rightarrow> parse_state \<Rightarrow> py_error + parse_state" where
  "parse_pair py_float line0 line1 st =
     (let gps_line = strip line0;
          pose_line = strip line1;
          gps_tokens = split_on CHR '','' gps_line
      in if length gps_tokens < 8 then Inr st
         else
           (case floats py_float [gps_tokens ! 1, gps_tokens ! 2, gps_tokens ! 4] of
              Inl e \<Rightarrow> Inl e
            | Inr g \<Rightarrow>
                (let latitude = g ! 0; longitude = g ! 1; altitude = g ! 2;
                     (ref_lat, ref_lon, ref_alt) =
                        (case ref st of None \<Rightarrow> (latitude, longitude, altitude) | Some r \<Rightarrow> r);
                     (x, y) = latlon_to_local latitude longitude ref_lat ref_lon;
                     z = altitude - ref_alt;
                     st1 = st\<lparr>ref := Some (ref_lat, ref_lon, ref_alt),
                              gps_positions := gps_positions st @ [[x, y, z]]\<rparr>;
                     pose_tokens = split_on CHR '','' pose_line
                 in if length pose_tokens < 11 then Inr st1
                    else
                      (case floats py_float (map (\<lambda>k. pose_tokens ! k) [2, 3, 4, 5, 6, 7, 8]) of
                         Inl e \<Rightarrow> Inl e
                       | Inr q \<Rightarrow>
                           (let qw = q ! 0; qx = q ! 1; qy = q ! 2; qz = q ! 3;
                                tx = q ! 4; ty = q ! 5; tz = q ! 6;
                                image_name = pose_tokens ! 10;
                                pose = [tx, ty, tz, qx, qy, qz, qw]
                            in Inr (st1\<lparr>poses := poses st1 @ [pose],
                                         images := images st1 @ [image_name]\<rparr>))))))"

text \<open>The loop itself; \<^verbatim>\<open>lines[i+1]\<close> raises \<^verbatim>\<open>IndexError\<close> on a file with an odd number
  of lines.\<close>

fun parse_pairs ::
  "(string \<Rightarrow> real option) \<Rightarrow> string list \<Rightarrow> parse_state \<Rightarrow> py_error + parse_state" where
  "parse_pairs py_float [] st = Inr st"
| "parse_pairs py_float [line0] st = Inl IndexError"
| "parse_pairs py_float (line0 # line1 # rest) st =
     (case parse_pair py_float line0 line1 st of
        Inl e \<Rightarrow> Inl e
      | Inr st' \<Rightarrow> parse_pairs py_float rest st')"

definition parse_file :: "(string \<Rightarrow> real option) \<Rightarrow> string list \<Rightarrow> py_error + parse_state" where
  "parse_file py_float lines =
     parse_pairs py_float lines \<lparr>gps_positions = [], poses = [], images = [], ref = None\<rparr>"


text \<open>
  \<^verbatim>\<open>UrbanNavDataset.__init__\<close>. \<open>pose_path\<close> is the list of the five hard-coded pose files
  joined to the pose directory, \<open>image_folder_of\<close> the image folder derived from a pose
  path, \<open>readlines\<close> the lines of a file.
\<close>

record un_acc =
  acc_gps_positions :: "real list list list"
  acc_poses :: "real list list list"
  acc_image_names :: "string list list"
  acc_count :: "int list"
  acc_image_folders :: "string list"

record un_dataset =
  un_mode :: string
  un_gps_positions :: "real list list list"
  un_poses :: "real list list list"
  un_image_names :: "string list list"
  un_image_folders :: "string list"
  un_count :: "int list"
  un_lut :: "(nat \<times> nat) list"
  un_sequence_ranges :: "(nat \<times> nat) list"

definition un_select_split ::
  "('thr, 'z) config_scheme \<Rightarrow> string \<Rightarrow> string list \<Rightarrow> py_error + string list" where
  "un_select_split cfg mode pose_path =
     (if mode = ''train'' then Inr (py_slice pose_path 0 (num_train cfg))
      else if mode = ''val'' then
        Inr (py_slice pose_path (num_train cfg) (num_train cfg + num_val cfg))
      else if mode = ''test'' then
        Inr (py_slice pose_path (num_train cfg + num_val cfg)
               (num_train cfg + num_val cfg + num_test cfg))
      else Inl ValueError)"

text \<open>
  The loop \<^verbatim>\<open>for f in tqdm(self.pose_path)\<close>: the image folder is recorded before the file
  is read, and a file that yields no pose or no GPS position is skipped
  (\<^verbatim>\<open>continue\<close>) after that.
\<close>

fun un_load ::
  "('thr, 'z) config_scheme \<Rightarrow> (string \<Rightarrow> string) \<Rightarrow> (string \<Rightarrow> bool) \<Rightarrow>
   (string \<Rightarrow> string list) \<Rightarrow> (string \<Rightarrow> real option) \<Rightarrow> string list \<Rightarrow> un_acc \<Rightarrow>
   py_error + un_acc" where
  "un_load cfg image_folder_of exists readlines py_float [] acc = Inr acc"
| "un_load cfg image_folder_of exists readlines py_float (f # fs) acc =
     (let image_folder = image_folder_of f
      in if \<not> exists image_folder then Inl FileNotFoundError
         else
           (let acc1 = acc\<lparr>acc_image_folders := acc_image_folders acc @ [image_folder]\<rparr>
            in case parse_file py_float (readlines f) of
                 Inl e \<Rightarrow> Inl e
               | Inr st \<Rightarrow>
                   if length (poses st) = 0 \<or> length (gps_positions st) = 0
                   then un_load cfg image_folder_of exists readlines py_float fs acc1
                   else un_load cfg image_folder_of exists readlines py_float fs
                          (acc1\<lparr>acc_count := acc_count acc1 @ [usable_count cfg (poses st)],
                                acc_gps_positions := acc_gps_positions acc1 @ [gps_positions st],
                                acc_poses := acc_poses acc1 @ [poses st],
                                acc_image_names := acc_image_names acc1 @ [images st]\<rparr>)))"

definition un_index :: "string \<Rightarrow> un_acc \<Rightarrow> py_error + un_dataset" where
  "un_index mode acc =
     (let valid = valid_indices (acc_count acc);
          counts' = select_indices (acc_count acc) valid
      in case build_lut counts' of
           Inl e \<Rightarrow> Inl e
         | Inr st \<Rightarrow>
             Inr \<lparr>un_mode = mode,
                  un_gps_positions = select_indices (acc_gps_positions acc) valid,
                  un_poses = select_indices (acc_poses acc) valid,
                  un_image_names = select_indices (acc_image_names acc) valid,
                  un_image_folders = select_indices (acc_image_folders acc) valid,
                  un_count = counts',
                  un_lut = lut st, un_sequence_ranges = ranges st\<rparr>)"

definition un_init ::
  "('thr, 'z) config_scheme \<Rightarrow> string \<Rightarrow> string list \<Rightarrow> (string \<Rightarrow> string) \<Rightarrow>
   (string \<Rightarrow> bool) \<Rightarrow> (string \<Rightarrow> string list) \<Rightarrow> (string \<Rightarrow> real option) \<Rightarrow>
   py_error + un_dataset" where
  "un_init cfg mode pose_path image_folder_of exists readlines py_float =
     (case un_select_split cfg mode pose_path of
        Inl e \<Rightarrow> Inl e
      | Inr split \<Rightarrow>
          (case un_load cfg image_folder_of exists readlines py_float split
                  \<lparr>acc_gps_positions = [], acc_poses = [], acc_image_names = [],
                   acc_count = [], acc_image_folders = []\<rparr> of
             Inl e \<Rightarrow> Inl e
           | Inr acc \<Rightarrow> un_index mode acc))"

subsection \<open>Usable counts of the retained sequences\<close>

lemma filter_nth_upt:
  "map (\<lambda>i. xs ! i) (filter (\<lambda>i. P (xs ! i)) [0..<length xs]) = filter P xs"
proof -
  have "filter P xs = filter P (map (\<lambda>i. xs ! i) [0..<length xs])"
    by (simp add: map_nth)
  also have "\<dots> = map (\<lambda>i. xs ! i) (filter (\<lambda>i. P (xs ! i)) [0..<length xs])"
    by (simp add: filter_map comp_def)
  finally show ?thesis by simp
qed

lemma valid_indices_map:
  "valid_indices (map f xs) = filter (\<lambda>i. 0 < f (xs ! i)) [0..<length xs]"
  unfolding valid_indices_def by (rule filter_cong) simp_all

lemma select_valid:
  "select_indices xs (valid_indices (map f xs)) = filter (\<lambda>x. 0 < f x) xs"
  unfolding select_indices_def valid_indices_map
  by (rule filter_nth_upt [of xs "\<lambda>x. 0 < f x"])

lemma select_valid_counts:
  "select_indices (map f xs) (valid_indices (map f xs)) = map f (filter (\<lambda>x. 0 < f x) xs)"
proof -
  have "select_indices (map f xs) (valid_indices (map f xs)) =
        map f (select_indices xs (valid_indices (map f xs)))"
    by (simp add: select_indices_def valid_indices_def)
  then show ?thesis by (simp add: select_valid)
qed

lemma lut_spec_member:
  "(v, p) \<in> set (lut_spec k cs) \<Longrightarrow> k \<le> v \<and> v < k + length cs \<and> int p < cs ! (v - k)"
proof (induction cs arbitrary: k)
  case Nil
  then show ?case by simp
next
  case (Cons c cs)
  from Cons.prems consider "v = k" "p < nat c" | "(v, p) \<in> set (lut_spec (Suc k) cs)"
    by (auto simp: py_range_def)
  then show ?case
  proof cases
    case 1
    then show ?thesis by simp
  next
    case 2
    from Cons.IH [OF 2] have "Suc k \<le> v" "v < Suc k + length cs" "int p < cs ! (v - Suc k)"
      by simp_all
    moreover from \<open>Suc k \<le> v\<close> have "(c # cs) ! (v - k) = cs ! (v - Suc k)"
      by (simp add: nth_Cons' Suc_diff_le)
    ultimately show ?thesis by simp
  qed
qed

lemma build_lut_member:
  assumes "build_lut counts = Inr st" and "(v, p) \<in> set (lut st)"
  shows "v < length counts \<and> int p < counts ! v"
proof -
  from assms(1) have "lut st = lut_spec 0 counts"
    by (auto simp: build_lut_def Let_def build_from_lut split: if_splits)
  with assms(2) lut_spec_member [of v p 0 counts] show ?thesis by simp
qed

lemma select_valid_map:
  "select_indices (map g zs) (valid_indices (map h zs)) = map g (filter (\<lambda>z. 0 < h z) zs)"
proof -
  have "select_indices (map g zs) (valid_indices (map h zs)) =
        map g (select_indices zs (valid_indices (map h zs)))"
    by (simp add: select_indices_def valid_indices_def)
  then show ?thesis by (simp add: select_valid)
qed

lemma cw_video_paths_length:
  "cw_video_paths video_of exists fs = Inr vs \<Longrightarrow> length vs = length fs"
  by (induction fs arbitrary: vs) (auto simp: Let_def split: if_splits sum.splits)

lemma cw_load_poses_length:
  "cw_load_poses cfg loadtxt fs = Inr ps \<Longrightarrow> length ps = length fs"
  by (induction fs arbitrary: ps) (auto split: sum.splits)

lemma un_load_invariant:
  assumes "un_load cfg image_folder_of exists readlines py_float fs acc = Inr acc'"
    and "acc_count acc = map (usable_count cfg) (acc_poses acc)"
    and "length (acc_gps_positions acc) = length (acc_poses acc)"
    and "length (acc_image_names acc) = length (acc_poses acc)"
  shows "acc_count acc' = map (usable_count cfg) (acc_poses acc') \<and>
         length (acc_gps_positions acc') = length (acc_poses acc') \<and>
         length (acc_image_names acc') = length (acc_poses acc')"
  using assms
proof (induction fs arbitrary: acc)
  case Nil
  then show ?case by simp
next
  case (Cons f fs)
  from Cons.prems(1) obtain st where ex: "exists (image_folder_of f)"
    and pf: "parse_file py_float (readlines f) = Inr st"
    by (auto simp: Let_def split: if_splits sum.splits)
  let ?acc1 = "acc\<lparr>acc_image_folders := acc_image_folders acc @ [image_folder_of f]\<rparr>"
  show ?case
  proof (cases "length (poses st) = 0 \<or> length (gps_positions st) = 0")
    case True
    with Cons.prems(1) ex pf
    have "un_load cfg image_folder_of exists readlines py_float fs ?acc1 = Inr acc'"
      by (simp add: Let_def)
    from Cons.IH [OF this] Cons.prems(2,3,4) show ?thesis by simp
  next
    case False
    let ?acc2 = "?acc1\<lparr>acc_count := acc_count ?acc1 @ [usable_count cfg (poses st)],
                       acc_gps_positions := acc_gps_positions ?acc1 @ [gps_positions st],
                       acc_poses := acc_poses ?acc1 @ [poses st],
                       acc_image_names := acc_image_names ?acc1 @ [images st]\<rparr>"
    from False Cons.prems(1) ex pf
    have "un_load cfg image_folder_of exists readlines py_float fs ?acc2 = Inr acc'"
      by (simp add: Let_def)
    from Cons.IH [OF this] Cons.prems(2,3,4) show ?thesis by simp
  qed
qed

text \<open>
  What the removal step does in the video source. The video paths and the pose arrays are
  filtered in step: the retained pairs are the loaded pairs with a positive usable count,
  in order; the count kept beside a retained sequence is the usable count of its pose
  array; and every entry of the look-up table names a retained sequence and an offset
  below its count.
\<close>

lemma cw_retained_sequences:
  assumes "cw_init cfg mode pose_path video_of exists loadtxt = Inr ds"
  shows "\<exists>split video_path loaded.
           cw_select_split cfg mode pose_path = Inr split \<and>
           cw_video_paths video_of exists split = Inr video_path \<and>
           cw_load_poses cfg loadtxt split = Inr loaded \<and>
           length video_path = length loaded \<and>
           cw_video_path ds =
             map fst (filter (\<lambda>(v, pose). 0 < usable_count cfg pose) (zip video_path loaded)) \<and>
           cw_poses ds =
             map snd (filter (\<lambda>(v, pose). 0 < usable_count cfg pose) (zip video_path loaded))"
    and "cw_count ds = map (usable_count cfg) (cw_poses ds)"
    and "\<forall>c\<in>set (cw_count ds). 0 < c"
    and "\<forall>(v, p)\<in>set (cw_lut ds). v < length (cw_poses ds) \<and> int p < cw_count ds ! v"
proof -
  from assms obtain split video_path loaded where s: "cw_select_split cfg mode pose_path = Inr split"
    and v: "cw_video_paths video_of exists split = Inr video_path"
    and l: "cw_load_poses cfg loadtxt split = Inr loaded"
    and i: "cw_index cfg mode video_path loaded = Inr ds"
    by (auto simp: cw_init_def split: sum.splits)
  let ?valid = "valid_indices (map (usable_count cfg) loaded)"
  let ?zs = "zip video_path loaded"
  from i obtain st where b: "build_lut (select_indices (map (usable_count cfg) loaded) ?valid) = Inr st"
    and ds: "ds = \<lparr>cw_mode = mode,
                   cw_poses = select_indices loaded ?valid,
                   cw_video_path = select_indices video_path ?valid,
                   cw_count = select_indices (map (usable_count cfg) loaded) ?valid,
                   cw_lut = lut st, cw_video_ranges = ranges st\<rparr>"
    by (auto simp: cw_index_def Let_def split: sum.splits)
  have len: "length video_path = length loaded"
    using cw_video_paths_length [OF v] cw_load_poses_length [OF l] by simp
  then have z: "map fst ?zs = video_path" "map snd ?zs = loaded"
    by simp_all
  have f: "(\<lambda>z. 0 < usable_count cfg (snd z)) = (\<lambda>(v, pose). 0 < usable_count cfg pose)"
    by (simp add: fun_eq_iff)
  have "map (\<lambda>z. usable_count cfg (snd z)) ?zs = map (usable_count cfg) (map snd ?zs)"
    by (simp add: comp_def)
  then have u: "map (usable_count cfg) loaded = map (\<lambda>z. usable_count cfg (snd z)) ?zs"
    by (simp only: z(2))
  have vp: "cw_video_path ds = map fst (filter (\<lambda>(v, pose). 0 < usable_count cfg pose) ?zs)"
    using select_valid_map [of fst ?zs "\<lambda>z. usable_count cfg (snd z)"]
    by (simp only: ds cw_dataset.simps u [symmetric] z f)
  have ps: "cw_poses ds = map snd (filter (\<lambda>(v, pose). 0 < usable_count cfg pose) ?zs)"
    using select_valid_map [of snd ?zs "\<lambda>z. usable_count cfg (snd z)"]
    by (simp only: ds cw_dataset.simps u [symmetric] z f)
  from s v l len vp ps show "\<exists>split video_path loaded.
           cw_select_split cfg mode pose_path = Inr split \<and>
           cw_video_paths video_of exists split = Inr video_path \<and>
           cw_load_poses cfg loadtxt split = Inr loaded \<and>
           length video_path = length loaded \<and>
           cw_video_path ds =
             map fst (filter (\<lambda>(v, pose). 0 < usable_count cfg pose) (zip video_path loaded)) \<and>
           cw_poses ds =
             map snd (filter (\<lambda>(v, pose). 0 < usable_count cfg pose) (zip video_path loaded))"
    by blast
  show c: "cw_count ds = map (usable_count cfg) (cw_poses ds)"
    by (simp add: ds select_valid select_valid_counts)
  have p: "cw_poses ds = filter (\<lambda>pose. 0 < usable_count cfg pose) loaded"
    by (simp add: ds select_valid)
  show "\<forall>c\<in>set (cw_count ds). 0 < c"
    unfolding c p by simp
  show "\<forall>(v, p)\<in>set (cw_lut ds). v < length (cw_poses ds) \<and> int p < cw_count ds ! v"
    using build_lut_member [OF b] by (auto simp: ds select_valid select_valid_counts)
qed

text \<open>
  In the robot source the poses, the GPS positions, the image names and the counts are
  filtered in step in the same way. The image folders are not: their list has one entry
  for every file that was opened, also for the files the loop skipped, and it is filtered
  with the positions of the counts.
\<close>

lemma un_retained_sequences:
  assumes "un_init cfg mode pose_path image_folder_of exists readlines py_float = Inr ds"
  shows "\<exists>split acc.
           un_select_split cfg mode pose_path = Inr split \<and>
           un_load cfg image_folder_of exists readlines py_float split
             \<lparr>acc_gps_positions = [], acc_poses = [], acc_image_names = [],
              acc_count = [], acc_image_folders = []\<rparr> = Inr acc \<and>
           length (acc_gps_positions acc) = length (acc_poses acc) \<and>
           length (acc_image_names acc) = length (acc_poses acc) \<and>
           un_poses ds = filter (\<lambda>pose. 0 < usable_count cfg pose) (acc_poses acc) \<and>
           un_gps_positions ds =
             map fst (filter (\<lambda>(g, pose). 0 < usable_count cfg pose)
                        (zip (acc_gps_positions acc) (acc_poses acc))) \<and>
           un_image_names ds =
             map fst (filter (\<lambda>(n, pose). 0 < usable_count cfg pose)
                        (zip (acc_image_names acc) (acc_poses acc))) \<and>
           un_image_folders ds =
             select_indices (acc_image_folders acc)
               (valid_indices (map (usable_count cfg) (acc_poses acc)))"
    and "un_count ds = map (usable_count cfg) (un_poses ds)"
    and "\<forall>c\<in>set (un_count ds). 0 < c"
    and "\<forall>(v, p)\<in>set (un_lut ds). v < length (un_poses ds) \<and> int p < un_count ds ! v"
proof -
  let ?acc0 = "\<lparr>acc_gps_positions = [], acc_poses = [], acc_image_names = [],
            acc_count = [], acc_image_folders = []\<rparr>"
  from assms obtain split acc where s: "un_select_split cfg mode pose_path = Inr split"
    and l: "un_load cfg image_folder_of exists readlines py_float split ?acc0 = Inr acc"
    and i: "un_index mode acc = Inr ds"
    by (auto simp: un_init_def split: sum.splits)
  have "acc_count acc = map (usable_count cfg) (acc_poses acc) \<and>
        length (acc_gps_positions acc) = length (acc_poses acc) \<and>
        length (acc_image_names acc) = length (acc_poses acc)"
    by (rule un_load_invariant [OF l]) simp_all
  then have inv: "acc_count acc = map (usable_count cfg) (acc_poses acc)"
    and lg: "length (acc_gps_positions acc) = length (acc_poses acc)"
    and ln: "length (acc_image_names acc) = length (acc_poses acc)"
    by simp_all
  let ?valid = "valid_indices (map (usable_count cfg) (acc_poses acc))"
  from i obtain st where
    b: "build_lut (select_indices (map (usable_count cfg) (acc_poses acc)) ?valid) = Inr st"
    and p: "un_poses ds = select_indices (acc_poses acc) ?valid"
    and g: "un_gps_positions ds = select_indices (acc_gps_positions acc) ?valid"
    and n: "un_image_names ds = select_indices (acc_image_names acc) ?valid"
    and fo: "un_image_folders ds = select_indices (acc_image_folders acc) ?valid"
    and c: "un_count ds = select_indices (map (usable_count cfg) (acc_poses acc)) ?valid"
    and lu: "un_lut ds = lut st"
    by (auto simp: un_index_def Let_def inv split: sum.splits)
  have sel: "select_indices xs ?valid =
               map fst (filter (\<lambda>(x, pose). 0 < usable_count cfg pose) (zip xs (acc_poses acc)))"
    if "length xs = length (acc_poses acc)" for xs :: "'x list"
  proof -
    let ?zs = "zip xs (acc_poses acc)"
    from that have z: "map fst ?zs = xs" "map snd ?zs = acc_poses acc"
      by simp_all
    have "map (\<lambda>z. usable_count cfg (snd z)) ?zs = map (usable_count cfg) (map snd ?zs)"
      by (simp add: comp_def)
    then have u: "map (usable_count cfg) (acc_poses acc) = map (\<lambda>z. usable_count cfg (snd z)) ?zs"
      by (simp only: z(2))
    from select_valid_map [of fst ?zs "\<lambda>z. usable_count cfg (snd z)"]
    have "select_indices xs ?valid =
            map fst (filter (\<lambda>z. 0 < usable_count cfg (snd z)) ?zs)"
      by (simp only: u [symmetric] z)
    then show ?thesis
      by (simp add: split_def)
  qed
  have pf: "un_poses ds = filter (\<lambda>pose. 0 < usable_count cfg pose) (acc_poses acc)"
    by (simp add: p select_valid)
  from s l lg ln pf g n fo sel [OF lg] sel [OF ln] show "\<exists>split acc.
           un_select_split cfg mode pose_path = Inr split \<and>
           un_load cfg image_folder_of exists readlines py_float split
             \<lparr>acc_gps_positions = [], acc_poses = [], acc_image_names = [],
              acc_count = [], acc_image_folders = []\<rparr> = Inr acc \<and>
           length (acc_gps_positions acc) = length (acc_poses acc) \<and>
           length (acc_image_names acc) = length (acc_poses acc) \<and>
           un_poses ds = filter (\<lambda>pose. 0 < usable_count cfg pose) (acc_poses acc) \<and>
           un_gps_positions ds =
             map fst (filter (\<lambda>(g, pose). 0 < usable_count cfg pose)
                        (zip (acc_gps_positions acc) (acc_poses acc))) \<and>
           un_image_names ds =
             map fst (filter (\<lambda>(n, pose). 0 < usable_count cfg pose)
                        (zip (acc_image_names acc) (acc_poses acc))) \<and>
           un_image_folders ds =
             select_indices (acc_image_folders acc)
               (valid_indices (map (usable_count cfg) (acc_poses acc)))"
    by (intro exI [of _ split] exI [of _ acc]) simp
  show cc: "un_count ds = map (usable_count cfg) (un_poses ds)"
    by (simp add: p c select_valid select_valid_counts)
  show "\<forall>c\<in>set (un_count ds). 0 < c"
    unfolding cc pf by simp
  show "\<forall>(v, p)\<in>set (un_lut ds). v < length (un_poses ds) \<and> int p < un_count ds ! v"
    using build_lut_member [OF b] by (auto simp: p c lu select_valid select_valid_counts)
qed

text \<open>A small configuration and two small sources on which the constructors succeed.\<close>

definition example_cfg :: "'thr \<Rightarrow> 'thr config" where
  "example_cfg thr =
     \<lparr>context_size = 1, wp_length = 1, search_window = 1, video_fps = 30, pose_fps = 5,
      target_fps = 5, input_noise = 0, arrived_threshold = thr, arrived_prob = 1 / 2,
      num_train = 2, num_val = 0, num_test = 0\<rparr>"

text \<open>Three pose logs: \<open>a.txt\<close> has four rows and two usable samples, \<open>b.txt\<close> two rows and
  none, every other file three rows and one.\<close>

definition example_loadtxt :: "string \<Rightarrow> pyfloat list list" where
  "example_loadtxt f =
     (if f = ''a.txt'' then
        [[Fin 0, Fin 0, Fin 0, Fin 0, Fin 0, Fin 0, Fin 0, Fin 1],
         [Fin 1, Fin 1, Fin 0, Fin 0, Fin 0, Fin 0, Fin 0, Fin 1],
         [Fin 2, Fin 2, Fin 0, Fin 0, Fin 0, Fin 0, Fin 0, Fin 1],
         [Fin 3, Fin 3, Fin 0, Fin 0, Fin 0, Fin 0, Fin 0, Fin 1]]
      else if f = ''b.txt'' then
        [[Fin 0, Fin 0, Fin 0, Fin 0, Fin 0, Fin 0, Fin 0, Fin 1],
         [Fin 1, Fin 1, Fin 0, Fin 0, Fin 0, Fin 0, Fin 0, Fin 1]]
      else
        [[Fin 0, Fin 5, Fin 0, Fin 0, Fin 0, Fin 0, Fin 0, Fin 1],
         [Fin 1, Fin 6, Fin 0, Fin 0, Fin 0, Fin 0, Fin 0, Fin 1],
         [Fin 2, Fin 7, Fin 0, Fin 0, Fin 0, Fin 0, Fin 0, Fin 1]])"

definition example_float :: "string \<Rightarrow> real option" where
  "example_float s = (if s = ''0'' then Some 0 else if s = ''1'' then Some 1 else None)"

definition example_lines :: "string \<Rightarrow> string list" where
  "example_lines f =
     [''0,1,1,0,0,0,,'', ''0,0,1,0,0,0,0,0,0,0,a.jpg'',
      ''0,1,1,0,0,0,,'', ''0,0,1,0,0,0,1,0,0,0,b.jpg'',
      ''0,1,1,0,0,0,,'', ''0,0,1,0,0,0,1,1,0,0,c.jpg'']"

lemma example_cw_init:
  "cw_init ((example_cfg (1::real))\<lparr>num_train := 3\<rparr>) ''train'' [''a.txt'', ''b.txt'', ''c.txt'']
     (\<lambda>f. f) (\<lambda>f. True) example_loadtxt =
   Inr \<lparr>cw_mode = ''train'',
        cw_poses = [[[Fin 0, Fin 0, Fin 0, Fin 0, Fin 0, Fin 0, Fin 1],
                     [Fin 1, Fin 0, Fin 0, Fin 0, Fin 0, Fin 0, Fin 1],
                     [Fin 2, Fin 0, Fin 0, Fin 0, Fin 0, Fin 0, Fin 1],
                     [Fin 3, Fin 0, Fin 0, Fin 0, Fin 0, Fin 0, Fin 1]],
                    [[Fin 5, Fin 0, Fin 0, Fin 0, Fin 0, Fin 0, Fin 1],
                     [Fin 6, Fin 0, Fin 0, Fin 0, Fin 0, Fin 0, Fin 1],
                     [Fin 7, Fin 0, Fin 0, Fin 0, Fin 0, Fin 0, Fin 1]]],
        cw_video_path = [''a.txt'', ''c.txt''], cw_count = [2, 1],
        cw_lut = [(0, 0), (0, 1), (1, 0)], cw_video_ranges = [(0, 2), (2, 3)]\<rparr>"
  by (simp add: cw_init_def cw_select_split_def py_slice_def slice_index_def example_cfg_def
      example_loadtxt_def load_pose_def decimate_def same_columns_def two_dimensional_def
      truncate_nan_def isnan_any_axis1_def
      np_any_def isnan_def cw_index_def usable_count_def valid_indices_def select_indices_def
      build_lut_def py_range_def Let_def upt_conv_Cons)

lemma example_parse_file:
  "parse_file example_float (example_lines f) =
     Inr \<lparr>gps_positions = [[0, 0, 0], [0, 0, 0], [0, 0, 0]],
          poses = [[0, 0, 0, 0, 0, 0, 1], [1, 0, 0, 0, 0, 0, 1], [1, 1, 0, 0, 0, 0, 1]],
          images = [''a.jpg'', ''b.jpg'', ''c.jpg''],
          ref = Some (1, 1, 0)\<rparr>"
  by (simp add: parse_file_def parse_pair_def example_lines_def example_float_def strip_def
      is_space_def latlon_to_local_def radians_def Let_def)

lemma example_un_init:
  "un_init (example_cfg (1::int)) ''train'' [''p6.txt''] (\<lambda>f. f) (\<lambda>f. True) example_lines
     example_float =
   Inr \<lparr>un_mode = ''train'',
        un_gps_positions = [[[0, 0, 0], [0, 0, 0], [0, 0, 0]]],
        un_poses = [[[0, 0, 0, 0, 0, 0, 1], [1, 0, 0, 0, 0, 0, 1], [1, 1, 0, 0, 0, 0, 1]]],
        un_image_names = [[''a.jpg'', ''b.jpg'', ''c.jpg'']],
        un_image_folders = [''p6.txt''],
        un_count = [1], un_lut = [(0, 0)], un_sequence_ranges = [(0, 1)]\<rparr>"
  by (simp add: un_init_def un_select_split_def py_slice_def slice_index_def example_cfg_def
      example_parse_file un_index_def usable_count_def valid_indices_def select_indices_def
      build_lut_def py_range_def Let_def)

text \<open>
  Claim C3. A sequence without usable samples should be removed from every per-sequence
  list, so that no entry of the look-up table refers to it. The robot constructor records
  the image folder of a file before it reads the file (line 62) and skips a file without
  poses afterwards (line 130), leaving the folder in place; the removal step then keeps
  the folders at the positions of the retained counts. With a first file whose only pose
  line is malformed and a second, sound file, the one retained sequence has the poses and
  the image names of the second file and the image folder of the first: the entry
  \<open>(0, 0)\<close> of the look-up table loads its frames from the folder of the removed sequence.
\<close>

theorem skipped_file_keeps_its_image_folder:
  "un_init (example_cfg (1::int)) ''train'' [''match_gps_pose6.txt'', ''match_gps_pose7.txt'']
     (\<lambda>f. if f = ''match_gps_pose6.txt'' then ''dog_nav_6'' else ''dog_nav_7'') (\<lambda>f. True)
     (\<lambda>f. if f = ''match_gps_pose6.txt'' then [''0,1,1,0,0,0,,'', ''0,0,1'']
           else example_lines f)
     example_float =
   Inr \<lparr>un_mode = ''train'',
        un_gps_positions = [[[0, 0, 0], [0, 0, 0], [0, 0, 0]]],
        un_poses = [[[0, 0, 0, 0, 0, 0, 1], [1, 0, 0, 0, 0, 0, 1], [1, 1, 0, 0, 0, 0, 1]]],
        un_image_names = [[''a.jpg'', ''b.jpg'', ''c.jpg'']],
        un_image_folders = [''dog_nav_6''],
        un_count = [1], un_lut = [(0, 0)], un_sequence_ranges = [(0, 1)]\<rparr> \<and>
   parse_file example_float [''0,1,1,0,0,0,,'', ''0,0,1''] =
     Inr \<lparr>gps_positions = [[0, 0, 0]], poses = [], images = [], ref = Some (1, 1, 0)\<rparr> \<and>
   usable_count (example_cfg (1::int)) ([] :: real list list) = 0"
proof -
  have skipped: "parse_file example_float [''0,1,1,0,0,0,,'', ''0,0,1''] =
     Inr \<lparr>gps_positions = [[0, 0, 0]], poses = [], images = [], ref = Some (1, 1, 0)\<rparr>"
    by (simp add: parse_file_def parse_pair_def example_float_def strip_def
        is_space_def latlon_to_local_def radians_def Let_def)
  have init: "un_init (example_cfg (1::int)) ''train'' [''match_gps_pose6.txt'', ''match_gps_pose7.txt'']
     (\<lambda>f. if f = ''match_gps_pose6.txt'' then ''dog_nav_6'' else ''dog_nav_7'') (\<lambda>f. True)
     (\<lambda>f. if f = ''match_gps_pose6.txt'' then [''0,1,1,0,0,0,,'', ''0,0,1'']
           else example_lines f)
     example_float =
   Inr \<lparr>un_mode = ''train'',
        un_gps_positions = [[[0, 0, 0], [0, 0, 0], [0, 0, 0]]],
        un_poses = [[[0, 0, 0, 0, 0, 0, 1], [1, 0, 0, 0, 0, 0, 1], [1, 1, 0, 0, 0, 0, 1]]],
        un_image_names = [[''a.jpg'', ''b.jpg'', ''c.jpg'']],
        un_image_folders = [''dog_nav_6''],
        un_count = [1], un_lut = [(0, 0)], un_sequence_ranges = [(0, 1)]\<rparr>"
    by (simp add: un_init_def un_select_split_def py_slice_def slice_index_def example_cfg_def
        skipped example_parse_file un_index_def usable_count_def valid_indices_def
        select_indices_def build_lut_def py_range_def Let_def)
  have "usable_count (example_cfg (1::int)) ([] :: real list list) = 0"
    by (simp add: usable_count_def example_cfg_def)
  with init skipped show ?thesis by simp
qed

text \<open>
  Claim C9. The GPS list and the pose list of a sequence should stay parallel when
  malformed lines are skipped. The loop appends the GPS position before it looks at the
  pose line, and its second \<^verbatim>\<open>continue\<close> (a pose line with fewer than 11 fields) leaves
  that position in place: on a file whose first pose line is malformed the GPS list has
  two entries and the pose list one, and the pose at index 0 belongs to the second GPS
  line while the GPS position at index 0 belongs to the first.
\<close>

theorem gps_pose_lists_diverge:
  "parse_file example_float
     [''0,0,0,0,0,0,,'', ''0,0,1'',
      ''0,0,0,0,1,0,,'', ''0,0,1,0,0,0,1,1,1,0,b.jpg''] =
   Inr \<lparr>gps_positions = [[0, 0, 0], [0, 0, 1]],
        poses = [[1, 1, 1, 0, 0, 0, 1]],
        images = [''b.jpg''],
        ref = Some (0, 0, 0)\<rparr>"
  by (simp add: parse_file_def parse_pair_def example_float_def strip_def
      is_space_def latlon_to_local_def radians_def Let_def)

subsection \<open>The input and future windows of a request\<close>

text \<open>
  \<^verbatim>\<open>
  def get_input_and_future_poses(self, pose, pose_start):
      input_poses = pose[pose_start: pose_start + self.context_size]
      search_end = min(pose_start + self.context_size + self.search_window, pose.shape[0])
      future_poses = pose[pose_start + self.context_size: search_end]
      if future_poses.shape[0] == 0:
          raise IndexError(f"No future poses available for index {pose_start}.")
      return input_poses, future_poses
  \<close>
\<close>

definition get_input_and_future_poses ::
  "('thr, 'z) config_scheme \<Rightarrow> 'row list \<Rightarrow> nat \<Rightarrow> py_error + ('row list \<times> 'row list)" where
  "get_input_and_future_poses cfg pose pose_start =
     (let input_poses = py_slice pose (int pose_start) (int pose_start + context_size cfg);
          search_end = min (int pose_start + context_size cfg + search_window cfg)
                           (int (length pose));
          future_poses = py_slice pose (int pose_start + context_size cfg) search_end
      in if length future_poses = 0 then Inl IndexError
         else Inr (input_poses, future_poses))"

text \<open>
  The robot source, in \<^verbatim>\<open>__getitem__\<close>:
  \<^verbatim>\<open>
  input_gps_positions = gps_positions[pose_start: pose_start + self.context_size]
  future_gps_positions = gps_positions[pose_start + self.context_size:
                                       pose_start + self.context_size + self.search_window]
  if future_gps_positions.shape[0] == 0:
      raise IndexError(f"No future positions available for index {pose_start}.")
  \<close>
\<close>

definition get_input_and_future_gps ::
  "('thr, 'z) config_scheme \<Rightarrow> 'row list \<Rightarrow> nat \<Rightarrow> py_error + ('row list \<times> 'row list)" where
  "get_input_and_future_gps cfg gps pose_start =
     (let input_gps_positions = py_slice gps (int pose_start) (int pose_start + context_size cfg);
          future_gps_positions =
            py_slice gps (int pose_start + context_size cfg)
              (int pose_start + context_size cfg + search_window cfg)
      in if length future_gps_positions = 0 then Inl IndexError
         else Inr (input_gps_positions, future_gps_positions))"

lemma py_slice_nonneg:
  "0 \<le> a \<Longrightarrow> 0 \<le> b \<Longrightarrow> py_slice xs a b = take (nat b - nat a) (drop (nat a) xs)"
  by (auto simp: py_slice_def slice_index_def Let_def min_def)

lemma py_slice_length_inside:
  "0 \<le> a \<Longrightarrow> a \<le> b \<Longrightarrow> b \<le> int (length xs) \<Longrightarrow> length (py_slice xs a b) = nat (b - a)"
  by (simp add: py_slice_nonneg)

lemma parse_pair_lengths:
  assumes "parse_pair py_float line0 line1 st = Inr st'"
    and "length (poses st) \<le> length (gps_positions st)"
  shows "length (poses st') \<le> length (gps_positions st')"
  using assms
  by (auto simp: parse_pair_def Let_def split: if_splits sum.splits option.splits prod.splits)

lemma parse_pairs_lengths:
  "parse_pairs py_float lines st = Inr st' \<Longrightarrow>
   length (poses st) \<le> length (gps_positions st) \<Longrightarrow>
   length (poses st') \<le> length (gps_positions st')"
proof (induction py_float lines st rule: parse_pairs.induct)
  case (1 py_float st)
  then show ?case by simp
next
  case (2 py_float line0 st)
  then show ?case by simp
next
  case (3 py_float line0 line1 rest st)
  from "3.prems"(1) obtain st1 where a: "parse_pair py_float line0 line1 st = Inr st1"
    and b: "parse_pairs py_float rest st1 = Inr st'"
    by (auto split: sum.splits)
  from parse_pair_lengths [OF a "3.prems"(2)] "3.IH" [OF a b] show ?case by simp
qed

lemma parse_file_lengths:
  "parse_file py_float lines = Inr st \<Longrightarrow> length (poses st) \<le> length (gps_positions st)"
  unfolding parse_file_def by (erule parse_pairs_lengths) simp


lemma future_window_full:
  assumes "0 \<le> context_size cfg" and "1 \<le> search_window cfg"
    and "int pose_start < usable_count cfg pose"
  shows "length (py_slice pose (int pose_start + context_size cfg)
                   (int pose_start + context_size cfg + search_window cfg)) =
           nat (search_window cfg)"
    and "min (int pose_start + context_size cfg + search_window cfg) (int (length pose)) =
           int pose_start + context_size cfg + search_window cfg"
    and "length (py_slice pose (int pose_start) (int pose_start + context_size cfg)) =
           nat (context_size cfg)"
proof -
  from assms(3) have u: "int pose_start + context_size cfg + max (search_window cfg) (wp_length cfg)
                          < int (length pose)"
    by (simp add: usable_count_def)
  then have e: "int pose_start + context_size cfg + search_window cfg \<le> int (length pose)"
    by linarith
  show "length (py_slice pose (int pose_start + context_size cfg)
                   (int pose_start + context_size cfg + search_window cfg)) =
           nat (search_window cfg)"
    using assms(1,2) e by (simp add: py_slice_length_inside)
  show "min (int pose_start + context_size cfg + search_window cfg) (int (length pose)) =
           int pose_start + context_size cfg + search_window cfg"
    using e by simp
  have "int pose_start + context_size cfg \<le> int (length pose)"
    using e assms(2) by linarith
  then show "length (py_slice pose (int pose_start) (int pose_start + context_size cfg)) =
           nat (context_size cfg)"
    using assms(1) by (simp add: py_slice_length_inside)
qed

text \<open>
  Claim C5, as amended. Both sources raise \<^verbatim>\<open>IndexError\<close> exactly when the future window is
  empty. For a request whose offset is below the usable count of its sequence, and a
  configuration with \<open>context_size \<ge> 0\<close> and \<open>search_window \<ge> 1\<close>, the request does not
  raise: the input window has \<open>context_size\<close> rows and the future window has all
  \<open>search_window\<close> rows. (For the robot source the GPS list is the one the file's loop
  produced together with the poses the count was taken from.)
\<close>

theorem future_window_nonempty:
  "(get_input_and_future_poses cfg pose pose_start = Inl IndexError \<longleftrightarrow>
      py_slice pose (int pose_start + context_size cfg)
        (min (int pose_start + context_size cfg + search_window cfg) (int (length pose))) = []) \<and>
   (get_input_and_future_gps cfg gps pose_start = Inl IndexError \<longleftrightarrow>
      py_slice gps (int pose_start + context_size cfg)
        (int pose_start + context_size cfg + search_window cfg) = []) \<and>
   (0 \<le> context_size cfg \<and> 1 \<le> search_window cfg \<and> int pose_start < usable_count cfg pose \<longrightarrow>
      (\<exists>input_poses future_poses.
         get_input_and_future_poses cfg pose pose_start = Inr (input_poses, future_poses) \<and>
         length input_poses = nat (context_size cfg) \<and>
         length future_poses = nat (search_window cfg) \<and> future_poses \<noteq> [])) \<and>
   (0 \<le> context_size cfg \<and> 1 \<le> search_window cfg \<and>
    parse_file py_float lines = Inr st \<and> int pose_start < usable_count cfg (poses st) \<longrightarrow>
      (\<exists>input_gps future_gps.
         get_input_and_future_gps cfg (gps_positions st) pose_start = Inr (input_gps, future_gps) \<and>
         length input_gps = nat (context_size cfg) \<and>
         length future_gps = nat (search_window cfg) \<and> future_gps \<noteq> []))"
proof (intro conjI impI)
  show "get_input_and_future_poses cfg pose pose_start = Inl IndexError \<longleftrightarrow>
      py_slice pose (int pose_start + context_size cfg)
        (min (int pose_start + context_size cfg + search_window cfg) (int (length pose))) = []"
    by (simp add: get_input_and_future_poses_def Let_def)
  show "get_input_and_future_gps cfg gps pose_start = Inl IndexError \<longleftrightarrow>
      py_slice gps (int pose_start + context_size cfg)
        (int pose_start + context_size cfg + search_window cfg) = []"
    by (simp add: get_input_and_future_gps_def Let_def)
next
  assume a: "0 \<le> context_size cfg \<and> 1 \<le> search_window cfg \<and>
             int pose_start < usable_count cfg pose"
  then have c: "0 \<le> context_size cfg" and s: "1 \<le> search_window cfg"
    and u: "int pose_start < usable_count cfg pose"
    by simp_all
  note f = future_window_full [OF c s u]
  from s have "nat (search_window cfg) \<noteq> 0" by simp
  with f show "\<exists>input_poses future_poses.
         get_input_and_future_poses cfg pose pose_start = Inr (input_poses, future_poses) \<and>
         length input_poses = nat (context_size cfg) \<and>
         length future_poses = nat (search_window cfg) \<and> future_poses \<noteq> []"
    by (auto simp: get_input_and_future_poses_def Let_def)
next
  assume a: "0 \<le> context_size cfg \<and> 1 \<le> search_window cfg \<and>
    parse_file py_float lines = Inr st \<and> int pose_start < usable_count cfg (poses st)"
  then have c: "0 \<le> context_size cfg" and s: "1 \<le> search_window cfg"
    and p: "parse_file py_float lines = Inr st"
    and u: "int pose_start < usable_count cfg (poses st)"
    by simp_all
  from parse_file_lengths [OF p] u have "int pose_start < usable_count cfg (gps_positions st)"
    by (simp add: usable_count_def)
  note f = future_window_full [OF c s this]
  from s have "nat (search_window cfg) \<noteq> 0" by simp
  with f show "\<exists>input_gps future_gps.
         get_input_and_future_gps cfg (gps_positions st) pose_start = Inr (input_gps, future_gps) \<and>
         length input_gps = nat (context_size cfg) \<and>
         length future_gps = nat (search_window cfg) \<and> future_gps \<noteq> []"
    by (auto simp: get_input_and_future_gps_def Let_def)
qed

theorem future_window_nonempty_witness:
  "get_input_and_future_poses (example_cfg (1::real)) [10, 11, 12, 13 :: nat] 1 = Inr ([11], [12]) \<and>
   (1::int) < usable_count (example_cfg (1::real)) [10, 11, 12, 13 :: nat] \<and>
   parse_file example_float (example_lines []) =
     Inr \<lparr>gps_positions = [[0, 0, 0], [0, 0, 0], [0, 0, 0]],
          poses = [[0, 0, 0, 0, 0, 0, 1], [1, 0, 0, 0, 0, 0, 1], [1, 1, 0, 0, 0, 0, 1]],
          images = [''a.jpg'', ''b.jpg'', ''c.jpg''],
          ref = Some (1, 1, 0)\<rparr> \<and>
   (0::int) < usable_count (example_cfg (1::int))
                [[0, 0, 0, 0, 0, 0, 1], [1, 0, 0, 0, 0, 0, 1], [1, 1, 0, 0, 0, 0, 1 :: real]] \<and>
   get_input_and_future_gps (example_cfg (1::int)) [[0, 0, 0], [0, 0, 0], [0, 0, 0 :: real]] 0 =
     Inr ([[0, 0, 0]], [[0, 0, 0]])"
  using future_window_nonempty [of "example_cfg (1::real)" "[10, 11, 12, 13 :: nat]" 1]
    future_window_nonempty [of "example_cfg (1::int)" _ 0 _ example_float "example_lines []"
      "\<lparr>gps_positions = [[0, 0, 0], [0, 0, 0], [0, 0, 0]],
          poses = [[0, 0, 0, 0, 0, 0, 1], [1, 0, 0, 0, 0, 0, 1], [1, 1, 0, 0, 0, 0, 1]],
          images = [''a.jpg'', ''b.jpg'', ''c.jpg''],
          ref = Some (1, 1, 0)\<rparr>"]
    example_parse_file [of "[]"]
  by (simp add: get_input_and_future_poses_def get_input_and_future_gps_def py_slice_def
      slice_index_def usable_count_def example_cfg_def Let_def)

text \<open>
  The claim as stated, with the validity of the offset as its only precondition, fails
  for \<open>search_window = 0\<close>: the usable count is taken from \<open>max(search_window, wp_length)\<close>,
  so offsets remain valid while the future window is empty.
\<close>

theorem future_window_empty_counterexample:
  "(0::int) < usable_count ((example_cfg (1::real))\<lparr>search_window := 0\<rparr>) [10, 11, 12, 13 :: nat] \<and>
   get_input_and_future_poses ((example_cfg (1::real))\<lparr>search_window := 0\<rparr>)
     [10, 11, 12, 13 :: nat] 0 = Inl IndexError"
  by (simp add: get_input_and_future_poses_def py_slice_def slice_index_def usable_count_def
      example_cfg_def Let_def)

subsection \<open>Frame indices of the video source\<close>

text \<open>
  In \<^verbatim>\<open>CityWalkDataset.__getitem__\<close>, with \<open>num_frames\<close> for \<^verbatim>\<open>len(video_reader)\<close>:
  \<^verbatim>\<open>
  frame_multiplier = self.video_fps // self.target_fps
  start_frame_idx = pose_start * frame_multiplier
  frame_indices = start_frame_idx + np.arange(self.context_size) * frame_multiplier
  num_frames = len(video_reader)
  frame_indices = [min(idx, num_frames - 1) for idx in frame_indices]
  \<close>
  \<^verbatim>\<open>frame_multiplier\<close> and \<^verbatim>\<open>start_frame_idx\<close> are Python integers, \<^verbatim>\<open>np.arange(...)\<close> is an
  array of signed 64-bit integers. In the product and in the sum NumPy converts the
  Python integer to a 64-bit integer, raising \<^verbatim>\<open>OverflowError\<close> when it does not fit
  (NumPy 2), and computes each entry modulo \<open>2\<^sup>6\<^sup>4\<close>, silently. Only an upper clamp is
  applied afterwards.
\<close>

definition int64 :: "int \<Rightarrow> bool" where
  "int64 i = (- (2 ^ 63) \<le> i \<and> i < 2 ^ 63)"

definition wrap64 :: "int \<Rightarrow> int" where
  "wrap64 i = (i + 2 ^ 63) mod 2 ^ 64 - 2 ^ 63"

definition frame_indices ::
  "('thr, 'z) config_scheme \<Rightarrow> nat \<Rightarrow> int \<Rightarrow> py_error + int list" where
  "frame_indices cfg pose_start num_frames =
     (if target_fps cfg = 0 then Inl ZeroDivisionError
      else
        (let frame_multiplier = video_fps cfg div target_fps cfg;
             start_frame_idx = int pose_start * frame_multiplier
         in if int64 frame_multiplier \<and> int64 start_frame_idx then
              (let frame_indices =
                     map (\<lambda>k. wrap64 (start_frame_idx + wrap64 (int k * frame_multiplier)))
                       (py_range (context_size cfg))
               in Inr (map (\<lambda>idx. min idx (num_frames - 1)) frame_indices))
            else Inl OverflowError))"

lemma wrap64_id: "int64 i \<Longrightarrow> wrap64 i = i"
  by (simp add: int64_def wrap64_def)

text \<open>
  Claim C8, as amended. For a video of at least one frame, a frame multiplier
  \<open>video_fps // target_fps\<close> that is defined, not negative and below \<open>2\<^sup>6\<^sup>3\<close>, and a window
  whose last unclamped frame index \<open>(offset + context_size - 1) * frame_multiplier\<close> is
  below \<open>2\<^sup>6\<^sup>3\<close>, a request yields \<open>context_size\<close> frame indices; slot \<open>k\<close> holds
  \<open>(offset + k) * frame_multiplier\<close> clamped from above, and every index lies in
  \<open>[0, num_frames - 1]\<close>.
\<close>

theorem frame_indices_in_range:
  assumes "target_fps cfg \<noteq> 0" and "0 \<le> video_fps cfg div target_fps cfg"
    and "video_fps cfg div target_fps cfg < 2 ^ 63"
    and "(int pose_start + max 0 (context_size cfg - 1)) * (video_fps cfg div target_fps cfg)
           < 2 ^ 63"
    and "1 \<le> num_frames"
  shows "\<exists>idxs. frame_indices cfg pose_start num_frames = Inr idxs \<and>
           length idxs = nat (context_size cfg) \<and>
           (\<forall>k<length idxs.
              idxs ! k = min ((int pose_start + int k) * (video_fps cfg div target_fps cfg))
                             (num_frames - 1) \<and>
              0 \<le> idxs ! k \<and> idxs ! k \<le> num_frames - 1)"
proof -
  let ?m = "video_fps cfg div target_fps cfg"
  let ?top = "(int pose_start + max 0 (context_size cfg - 1)) * ?m"
  let ?idxs = "map (\<lambda>idx. min idx (num_frames - 1))
                 (map (\<lambda>k. wrap64 (int pose_start * ?m + wrap64 (int k * ?m)))
                    (py_range (context_size cfg)))"
  note m = assms(2)
  have below: "0 \<le> j * ?m \<and> j * ?m \<le> ?top"
    if "0 \<le> j" and "j \<le> int pose_start + max 0 (context_size cfg - 1)" for j
    using that m by (simp add: mult_right_mono)
  have fits: "int64 (j * ?m)"
    if "0 \<le> j" and "j \<le> int pose_start + max 0 (context_size cfg - 1)" for j
    using below [OF that] assms(4) by (simp add: int64_def)
  have im: "int64 ?m"
    using m assms(3) by (simp add: int64_def)
  have st: "int64 (int pose_start * ?m)"
    by (rule fits) simp_all
  have e: "frame_indices cfg pose_start num_frames = Inr ?idxs"
    using assms(1) im st by (simp add: frame_indices_def Let_def)
  have l: "length ?idxs = nat (context_size cfg)"
    by (simp add: py_range_def)
  have "?idxs ! k = min ((int pose_start + int k) * ?m) (num_frames - 1) \<and>
        0 \<le> ?idxs ! k \<and> ?idxs ! k \<le> num_frames - 1" if "k < length ?idxs" for k
  proof -
    from that have k: "k < nat (context_size cfg)" by (simp add: py_range_def)
    then have kb: "int k \<le> max 0 (context_size cfg - 1)" by simp
    have w1: "wrap64 (int k * ?m) = int k * ?m"
      using kb by (intro wrap64_id fits) simp_all
    have "int64 ((int pose_start + int k) * ?m)"
      using kb by (intro fits) simp_all
    then have w2: "wrap64 (int pose_start * ?m + int k * ?m) = (int pose_start + int k) * ?m"
      by (simp add: wrap64_id algebra_simps)
    from k have v: "?idxs ! k = min ((int pose_start + int k) * ?m) (num_frames - 1)"
      by (simp add: py_range_def w1 w2)
    have "0 \<le> (int pose_start + int k) * ?m"
      using m by simp
    with v assms(5) show ?thesis by simp
  qed
  with e l show ?thesis by blast
qed

theorem frame_indices_in_range_witness:
  "frame_indices ((example_cfg (1::real))\<lparr>context_size := 3\<rparr>) 2 20 = Inr [12, 18, 19]"
  using frame_indices_in_range [of "(example_cfg (1::real))\<lparr>context_size := 3\<rparr>" 2 20]
  by (simp add: frame_indices_def int64_def wrap64_def example_cfg_def py_range_def Let_def
      upt_conv_Cons)

text \<open>
  The claim as stated fails, for there is no lower clamp: with a negative target rate the
  multiplier \<open>30 // -5 = -6\<close> is negative and so are the indices; and with a multiplier of
  \<open>2\<^sup>6\<^sup>2\<close> the third entry of the 64-bit array wraps around to \<open>-2\<^sup>6\<^sup>3\<close>.
\<close>

theorem frame_indices_counterexample:
  "frame_indices ((example_cfg (1::real))\<lparr>context_size := 3, target_fps := - 5\<rparr>) 2 20 =
     Inr [- 12, - 18, - 24] \<and>
   frame_indices
     ((example_cfg (1::real))\<lparr>context_size := 3, video_fps := 2 ^ 62, target_fps := 1\<rparr>) 0 20 =
     Inr [0, 19, - (2 ^ 63)]"
  by (simp add: frame_indices_def int64_def wrap64_def example_cfg_def py_range_def Let_def
      upt_conv_Cons)

subsection \<open>The sampler\<close>

text \<open>
  \<^verbatim>\<open>
  def create_indices(self):
      indices = []
      for start_idx, end_idx in self.dataset.video_ranges:
          video_indices = list(range(start_idx, end_idx))
          if self.dataset.mode == 'train':
              random.shuffle(video_indices)
          indices.extend(video_indices)
      return indices
  \<close>
  The random source is the parameter \<open>shuffle\<close>: \<open>shuffle k xs\<close> is the order in which the
  \<open>k\<close>-th range leaves \<^verbatim>\<open>random.shuffle\<close>. What \<^verbatim>\<open>random.shuffle\<close> guarantees, that the
  result is a rearrangement of its argument, is a hypothesis where it is needed.
\<close>

fun create_indices_loop ::
  "(nat \<Rightarrow> nat list \<Rightarrow> nat list) \<Rightarrow> string \<Rightarrow> nat \<Rightarrow> (nat \<times> nat) list \<Rightarrow> nat list \<Rightarrow> nat list" where
  "create_indices_loop shuffle mode k [] indices = indices"
| "create_indices_loop shuffle mode k ((start_idx, end_idx) # rest) indices =
     (let video_indices = [start_idx..<end_idx];
          video_indices' = (if mode = ''train'' then shuffle k video_indices else video_indices)
      in create_indices_loop shuffle mode (Suc k) rest (indices @ video_indices'))"

definition create_indices ::
  "(nat \<Rightarrow> nat list \<Rightarrow> nat list) \<Rightarrow> 'row cw_dataset \<Rightarrow> nat list" where
  "create_indices shuffle dataset =
     create_indices_loop shuffle (cw_mode dataset) 0 (cw_video_ranges dataset) []"

text \<open>The blocks the loop appends, one per range.\<close>

fun blocks_of ::
  "(nat \<Rightarrow> nat list \<Rightarrow> nat list) \<Rightarrow> string \<Rightarrow> nat \<Rightarrow> (nat \<times> nat) list \<Rightarrow> nat list list" where
  "blocks_of shuffle mode k [] = []"
| "blocks_of shuffle mode k ((start_idx, end_idx) # rest) =
     (if mode = ''train'' then shuffle k [start_idx..<end_idx] else [start_idx..<end_idx])
       # blocks_of shuffle mode (Suc k) rest"

lemma create_indices_loop_blocks:
  "create_indices_loop shuffle mode k rs acc = acc @ concat (blocks_of shuffle mode k rs)"
  by (induction shuffle mode k rs acc rule: create_indices_loop.induct) (simp_all add: Let_def)

lemma length_blocks_of: "length (blocks_of shuffle mode k rs) = length rs"
  by (induction shuffle mode k rs rule: blocks_of.induct) simp_all

lemma blocks_of_nth_mset:
  assumes "\<And>k xs. mset (shuffle k xs) = mset xs" and "i < length rs"
  shows "mset (blocks_of shuffle mode k rs ! i) = mset [fst (rs ! i)..<snd (rs ! i)]"
  using assms(2)
proof (induction rs arbitrary: k i)
  case Nil
  then show ?case by simp
next
  case (Cons r rs)
  obtain s e where r: "r = (s, e)" by (cases r)
  show ?case
  proof (cases i)
    case 0
    then show ?thesis by (simp add: r assms(1))
  next
    case (Suc j)
    with Cons.prems have "j < length rs" by simp
    from Cons.IH [OF this] Suc show ?thesis by (simp add: r)
  qed
qed

lemma blocks_of_eval_flat:
  "mode \<noteq> ''train'' \<Longrightarrow>
   concat (blocks_of shuffle mode k (ranges_spec a cs)) = [a..<a + (\<Sum>c\<leftarrow>cs. nat c)]"
proof (induction cs arbitrary: a k)
  case Nil
  then show ?case by simp
next
  case (Cons c cs)
  have "[a..<a + nat c + (\<Sum>c\<leftarrow>cs. nat c)] =
        [a..<a + nat c] @ [a + nat c..<a + nat c + (\<Sum>c\<leftarrow>cs. nat c)]"
    by (rule upt_add_eq_append) simp
  then have "[a..<a + (nat c + (\<Sum>c\<leftarrow>cs. nat c))] =
        [a..<a + nat c] @ [a + nat c..<a + nat c + (\<Sum>c\<leftarrow>cs. nat c)]"
    by (simp only: add.assoc)
  with Cons show ?case by simp
qed

lemma blocks_of_mset_flat:
  assumes "\<And>k xs. mset (shuffle k xs) = mset xs"
  shows "mset (concat (blocks_of shuffle mode k (ranges_spec a cs))) =
         mset [a..<a + (\<Sum>c\<leftarrow>cs. nat c)]"
proof (induction cs arbitrary: a k)
  case Nil
  then show ?case by simp
next
  case (Cons c cs)
  have "[a..<a + nat c + (\<Sum>c\<leftarrow>cs. nat c)] =
        [a..<a + nat c] @ [a + nat c..<a + nat c + (\<Sum>c\<leftarrow>cs. nat c)]"
    by (rule upt_add_eq_append) simp
  then have "[a..<a + (nat c + (\<Sum>c\<leftarrow>cs. nat c))] =
        [a..<a + nat c] @ [a + nat c..<a + nat c + (\<Sum>c\<leftarrow>cs. nat c)]"
    by (simp only: add.assoc)
  then have "mset [a..<a + (nat c + (\<Sum>c\<leftarrow>cs. nat c))] =
        mset [a..<a + nat c] + mset [a + nat c..<a + nat c + (\<Sum>c\<leftarrow>cs. nat c)]"
    by (simp only: mset_append)
  then show ?case
    by (simp add: assms Cons.IH del: mset_upt)
qed

lemma cw_init_ranges:
  assumes "cw_init cfg mode pose_path video_of exists loadtxt = Inr ds"
  shows "\<exists>counts. cw_video_ranges ds = ranges_spec 0 counts \<and>
           length (cw_lut ds) = (\<Sum>c\<leftarrow>counts. nat c) \<and> cw_mode ds = mode \<and>
           (mode = ''train'' \<or> mode = ''val'')"
proof -
  from assms obtain split video_path loaded where
    s: "cw_select_split cfg mode pose_path = Inr split"
    and i: "cw_index cfg mode video_path loaded = Inr ds"
    by (auto simp: cw_init_def split: sum.splits)
  from s have m: "mode = ''train'' \<or> mode = ''val''"
    by (auto simp: cw_select_split_def split: if_splits)
  let ?counts = "select_indices (map (usable_count cfg) loaded)
                   (valid_indices (map (usable_count cfg) loaded))"
  from i obtain st where b: "build_lut ?counts = Inr st"
    and l: "cw_lut ds = lut st" and r: "cw_video_ranges ds = ranges st" and md: "cw_mode ds = mode"
    by (auto simp: cw_index_def Let_def split: sum.splits)
  from b have "lut st = lut_spec 0 ?counts" "ranges st = ranges_spec 0 ?counts"
    by (auto simp: build_lut_def Let_def build_from_lut build_from_ranges split: if_splits)
  with l r md m show ?thesis
    by (auto simp: length_lut_spec)
qed

text \<open>
  Claim C10. For a dataset the constructor returned: outside training mode the sampler
  yields \<open>0, 1, \<dots>, N-1\<close> in ascending order; and whenever \<^verbatim>\<open>random.shuffle\<close> rearranges
  its argument, the yielded list is the concatenation, in sequence order, of one block per
  range, block \<open>i\<close> being a rearrangement of the range \<open>[s\<^sub>i, e\<^sub>i)\<close>, so that the ids of
  sequence \<open>i\<close> all come before those of sequence \<open>i+1\<close>; in all, every id of
  \<open>0 \<dots> N-1\<close> is yielded once.
\<close>

theorem sampler_order:
  assumes "cw_init cfg mode pose_path video_of exists loadtxt = Inr ds"
  shows "(cw_mode ds \<noteq> ''train'' \<longrightarrow> create_indices shuffle ds = [0..<length (cw_lut ds)]) \<and>
         ((\<forall>k xs. mset (shuffle k xs) = mset xs) \<longrightarrow>
            (\<exists>blocks. create_indices shuffle ds = concat blocks \<and>
               length blocks = length (cw_video_ranges ds) \<and>
               (\<forall>i<length blocks.
                  mset (blocks ! i) =
                    mset [fst (cw_video_ranges ds ! i)..<snd (cw_video_ranges ds ! i)])) \<and>
            mset (create_indices shuffle ds) = mset [0..<length (cw_lut ds)])"
proof -
  from cw_init_ranges [OF assms] obtain counts
    where r: "cw_video_ranges ds = ranges_spec 0 counts"
      and n: "length (cw_lut ds) = (\<Sum>c\<leftarrow>counts. nat c)" and m: "cw_mode ds = mode"
    by blast
  have c: "create_indices shuffle ds = concat (blocks_of shuffle mode 0 (ranges_spec 0 counts))"
    by (simp add: create_indices_def create_indices_loop_blocks r m)
  have a: "create_indices shuffle ds = [0..<length (cw_lut ds)]" if "cw_mode ds \<noteq> ''train''"
    using that blocks_of_eval_flat [of mode shuffle 0 0 counts] by (simp add: c n m)
  have b: "(\<exists>blocks. create_indices shuffle ds = concat blocks \<and>
               length blocks = length (cw_video_ranges ds) \<and>
               (\<forall>i<length blocks.
                  mset (blocks ! i) =
                    mset [fst (cw_video_ranges ds ! i)..<snd (cw_video_ranges ds ! i)])) \<and>
            mset (create_indices shuffle ds) = mset [0..<length (cw_lut ds)]"
    if p: "\<forall>k xs. mset (shuffle k xs) = mset xs"
  proof
    let ?blocks = "blocks_of shuffle mode 0 (ranges_spec 0 counts)"
    have "\<forall>i<length ?blocks. mset (?blocks ! i) =
            mset [fst (cw_video_ranges ds ! i)..<snd (cw_video_ranges ds ! i)]"
      using blocks_of_nth_mset [of shuffle _ "ranges_spec 0 counts" mode 0] p
      by (simp add: length_blocks_of r)
    then show "\<exists>blocks. create_indices shuffle ds = concat blocks \<and>
               length blocks = length (cw_video_ranges ds) \<and>
               (\<forall>i<length blocks.
                  mset (blocks ! i) =
                    mset [fst (cw_video_ranges ds ! i)..<snd (cw_video_ranges ds ! i)])"
      using c by (intro exI [of _ ?blocks]) (simp add: length_blocks_of r)
    show "mset (create_indices shuffle ds) = mset [0..<length (cw_lut ds)]"
      using blocks_of_mset_flat [of shuffle mode 0 0 counts] p by (simp add: c n)
  qed
  from a b show ?thesis by blast
qed


lemma example_cw_init_val:
  "cw_init ((example_cfg (1::real))\<lparr>num_train := 0, num_val := 3\<rparr>) ''val''
     [''a.txt'', ''b.txt'', ''c.txt''] (\<lambda>f. f) (\<lambda>f. True) example_loadtxt =
   Inr \<lparr>cw_mode = ''val'',
        cw_poses = [[[Fin 0, Fin 0, Fin 0, Fin 0, Fin 0, Fin 0, Fin 1],
                     [Fin 1, Fin 0, Fin 0, Fin 0, Fin 0, Fin 0, Fin 1],
                     [Fin 2, Fin 0, Fin 0, Fin 0, Fin 0, Fin 0, Fin 1],
                     [Fin 3, Fin 0, Fin 0, Fin 0, Fin 0, Fin 0, Fin 1]],
                    [[Fin 5, Fin 0, Fin 0, Fin 0, Fin 0, Fin 0, Fin 1],
                     [Fin 6, Fin 0, Fin 0, Fin 0, Fin 0, Fin 0, Fin 1],
                     [Fin 7, Fin 0, Fin 0, Fin 0, Fin 0, Fin 0, Fin 1]]],
        cw_video_path = [''a.txt'', ''c.txt''], cw_count = [2, 1],
        cw_lut = [(0, 0), (0, 1), (1, 0)], cw_video_ranges = [(0, 2), (2, 3)]\<rparr>"
  by (simp add: cw_init_def cw_select_split_def py_slice_def slice_index_def example_cfg_def
      example_loadtxt_def load_pose_def decimate_def same_columns_def two_dimensional_def
      truncate_nan_def isnan_any_axis1_def
      np_any_def isnan_def cw_index_def usable_count_def valid_indices_def select_indices_def
      build_lut_def py_range_def Let_def upt_conv_Cons)

theorem sampler_order_witness:
  "create_indices (\<lambda>k. rev)
     \<lparr>cw_mode = ''train'',
      cw_poses = [[[Fin 0, Fin 0, Fin 0, Fin 0, Fin 0, Fin 0, Fin 1],
                   [Fin 1, Fin 0, Fin 0, Fin 0, Fin 0, Fin 0, Fin 1],
                   [Fin 2, Fin 0, Fin 0, Fin 0, Fin 0, Fin 0, Fin 1],
                   [Fin 3, Fin 0, Fin 0, Fin 0, Fin 0, Fin 0, Fin 1]],
                  [[Fin 5, Fin 0, Fin 0, Fin 0, Fin 0, Fin 0, Fin 1],
                   [Fin 6, Fin 0, Fin 0, Fin 0, Fin 0, Fin 0, Fin 1],
                   [Fin 7, Fin 0, Fin 0, Fin 0, Fin 0, Fin 0, Fin 1]]],
      cw_video_path = [''a.txt'', ''c.txt''], cw_count = [2, 1],
      cw_lut = [(0, 0), (0, 1), (1, 0)], cw_video_ranges = [(0, 2), (2, 3)]\<rparr> = [1, 0, 2] \<and>
   create_indices (\<lambda>k. rev)
     \<lparr>cw_mode = ''val'',
      cw_poses = [[[Fin 0, Fin 0, Fin 0, Fin 0, Fin 0, Fin 0, Fin 1],
                   [Fin 1, Fin 0, Fin 0, Fin 0, Fin 0, Fin 0, Fin 1],
                   [Fin 2, Fin 0, Fin 0, Fin 0, Fin 0, Fin 0, Fin 1],
                   [Fin 3, Fin 0, Fin 0, Fin 0, Fin 0, Fin 0, Fin 1]],
                  [[Fin 5, Fin 0, Fin 0, Fin 0, Fin 0, Fin 0, Fin 1],
                   [Fin 6, Fin 0, Fin 0, Fin 0, Fin 0, Fin 0, Fin 1],
                   [Fin 7, Fin 0, Fin 0, Fin 0, Fin 0, Fin 0, Fin 1]]],
      cw_video_path = [''a.txt'', ''c.txt''], cw_count = [2, 1],
      cw_lut = [(0, 0), (0, 1), (1, 0)], cw_video_ranges = [(0, 2), (2, 3)]\<rparr> = [0, 1, 2]"
  using sampler_order [OF example_cw_init, of "\<lambda>k. rev"]
    sampler_order [OF example_cw_init_val, of "\<lambda>k. rev"]
  by (simp add: create_indices_def upt_conv_Cons)

subsection \<open>Random draws\<close>

text \<open>
  \<^verbatim>\<open>random.randint(a, b)\<close> raises \<^verbatim>\<open>ValueError\<close> on an empty range and otherwise returns one
  of the integers \<open>a, \<dots>, b\<close>, each with the same probability. The model returns the list
  of these equally likely outcomes.
\<close>

definition randint :: "int \<Rightarrow> int \<Rightarrow> py_error + int list" where
  "randint a b = (if b < a then Inl ValueError else Inr [a..b])"

subsection \<open>Rigid transforms of the video source\<close>

text \<open>
  A pose is a row \<open>[tx, ty, tz, qx, qy, qz, qw]\<close> of reals. \<^verbatim>\<open>Rotation.from_quat\<close> rejects a
  row that has not four components or has norm zero, and normalises the others;
  \<^verbatim>\<open>as_matrix\<close> is SciPy's rotation matrix of a unit quaternion \<open>(x, y, z, w)\<close>.
\<close>

definition from_quat :: "real list \<Rightarrow> py_error + real list" where
  "from_quat quat =
     (if length quat \<noteq> 4 then Inl ValueError
      else (let n = sqrt (sum_list (map (\<lambda>c. c * c) quat))
            in if n = 0 then Inl ValueError else Inr (map (\<lambda>c. c / n) quat)))"

definition as_matrix :: "real list \<Rightarrow> real list list" where
  "as_matrix q =
     (let x = q ! 0; y = q ! 1; z = q ! 2; w = q ! 3;
          x2 = x * x; y2 = y * y; z2 = z * z; w2 = w * w;
          xy = x * y; zw = z * w; xz = x * z; yw = y * w; yz = y * z; xw = x * w
      in [[x2 - y2 - z2 + w2, 2 * (xy - zw), 2 * (xz + yw)],
          [2 * (xy + zw), - x2 + y2 - z2 + w2, 2 * (yz - xw)],
          [2 * (xz - yw), 2 * (yz + xw), - x2 - y2 + z2 + w2]])"

text \<open>
  \<^verbatim>\<open>
  def pose_to_matrix(self, pose):
      position = pose[:3]
      rotation = R.from_quat(pose[3:])
      matrix = np.eye(4)
      matrix[:3, :3] = rotation.as_matrix()
      matrix[:3, 3] = position
      return matrix
  \<close>
\<close>

definition pose_to_matrix :: "real list \<Rightarrow> py_error + real list list" where
  "pose_to_matrix pose =
     (let position = take 3 pose
      in case from_quat (drop 3 pose) of
           Inl e \<Rightarrow> Inl e
         | Inr q \<Rightarrow>
             (let rot = as_matrix q
              in Inr [rot ! 0 @ [position ! 0],
                      rot ! 1 @ [position ! 1],
                      rot ! 2 @ [position ! 2],
                      [0, 0, 0, 1]]))"

text \<open>\<^verbatim>\<open>poses_to_matrices\<close>: the same matrix for every row of an array of poses.\<close>

fun poses_to_matrices :: "real list list \<Rightarrow> py_error + real list list list" where
  "poses_to_matrices [] = Inr []"
| "poses_to_matrices (pose # rest) =
     (case pose_to_matrix pose of
        Inl e \<Rightarrow> Inl e
      | Inr m \<Rightarrow> (case poses_to_matrices rest of Inl e \<Rightarrow> Inl e | Inr ms \<Rightarrow> Inr (m # ms)))"

text \<open>
  \<^verbatim>\<open>np.linalg.inv\<close> on a matrix that \<open>pose_to_matrix\<close> built, \<open>[R t; 0 1]\<close> with \<open>R\<close> the
  rotation of a unit quaternion: its inverse is \<open>[R\<^sup>T  -R\<^sup>T t; 0 1]\<close>.
\<close>

definition linalg_inv :: "real list list \<Rightarrow> real list list" where
  "linalg_inv m =
     (let r = (\<lambda>i j. m ! i ! j); t = (\<lambda>i. m ! i ! 3);
          row = (\<lambda>i. [r 0 i, r 1 i, r 2 i, - (r 0 i * t 0 + r 1 i * t 1 + r 2 i * t 2)])
      in [row 0, row 1, row 2, [0, 0, 0, 1]])"

text \<open>\<^verbatim>\<open>np.matmul\<close> of two 4\<times>4 matrices, and the slice \<^verbatim>\<open>[:3, 3]\<close>.\<close>

definition matmul :: "real list list \<Rightarrow> real list list \<Rightarrow> real list list" where
  "matmul a b =
     map (\<lambda>row. map (\<lambda>j. row ! 0 * b ! 0 ! j + row ! 1 * b ! 1 ! j +
                           row ! 2 * b ! 2 ! j + row ! 3 * b ! 3 ! j) [0, 1, 2, 3]) a"

definition translation :: "real list list \<Rightarrow> real list" where
  "translation m = [m ! 0 ! 3, m ! 1 ! 3, m ! 2 ! 3]"

text \<open>
  \<^verbatim>\<open>
  def transform_poses(self, poses, current_pose_array):
      current_pose_matrix = self.pose_to_matrix(current_pose_array)
      current_pose_inv = np.linalg.inv(current_pose_matrix)
      pose_matrices = self.poses_to_matrices(poses)
      transformed_matrices = np.matmul(current_pose_inv[np.newaxis, :, :], pose_matrices)
      positions = transformed_matrices[:, :3, 3]
      return positions
  \<close>
  (\<open>pose_array\<close> stands for the argument \<^verbatim>\<open>poses\<close>.)
  \<^verbatim>\<open>transform_waypoints\<close> has the same body; \<^verbatim>\<open>transform_target_pose\<close> does it for one pose.
\<close>

definition transform_poses :: "real list list \<Rightarrow> real list \<Rightarrow> py_error + real list list" where
  "transform_poses pose_array current_pose_array =
     (case pose_to_matrix current_pose_array of
        Inl e \<Rightarrow> Inl e
      | Inr current_pose_matrix \<Rightarrow>
          (let current_pose_inv = linalg_inv current_pose_matrix
           in case poses_to_matrices pose_array of
                Inl e \<Rightarrow> Inl e
              | Inr pose_matrices \<Rightarrow>
                  Inr (map (\<lambda>m. translation (matmul current_pose_inv m)) pose_matrices)))"

definition transform_waypoints :: "real list list \<Rightarrow> real list \<Rightarrow> py_error + real list list" where
  "transform_waypoints waypoint_poses current_pose_array =
     (case pose_to_matrix current_pose_array of
        Inl e \<Rightarrow> Inl e
      | Inr current_pose_matrix \<Rightarrow>
          (let current_pose_inv = linalg_inv current_pose_matrix
           in case poses_to_matrices waypoint_poses of
                Inl e \<Rightarrow> Inl e
              | Inr waypoint_matrices \<Rightarrow>
                  Inr (map (\<lambda>m. translation (matmul current_pose_inv m)) waypoint_matrices)))"

definition transform_target_pose :: "real list \<Rightarrow> real list \<Rightarrow> py_error + real list" where
  "transform_target_pose target_pose current_pose_array =
     (case pose_to_matrix current_pose_array of
        Inl e \<Rightarrow> Inl e
      | Inr current_pose_matrix \<Rightarrow>
          (let current_pose_inv = linalg_inv current_pose_matrix
           in case pose_to_matrix target_pose of
                Inl e \<Rightarrow> Inl e
              | Inr target_pose_matrix \<Rightarrow>
                  Inr (translation (matmul current_pose_inv target_pose_matrix))))"

text \<open>
  The matrix of a pose is rigid: the rotation block of a normalised quaternion is
  orthogonal, so \<open>linalg_inv\<close> returns the inverse.
\<close>

lemma from_quat_unit:
  assumes "from_quat quat = Inr q"
  shows "length q = 4 \<and> q ! 0 * q ! 0 + q ! 1 * q ! 1 + q ! 2 * q ! 2 + q ! 3 * q ! 3 = 1"
proof -
  from assms have l: "length quat = 4"
    by (auto simp: from_quat_def split: if_splits)
  then obtain a b c d where quat: "quat = [a, b, c, d]"
    by (cases quat; cases "tl quat"; cases "tl (tl quat)"; cases "tl (tl (tl quat))") auto
  let ?s = "a * a + b * b + c * c + d * d"
  from assms quat have n: "sqrt ?s \<noteq> 0" and q: "q = map (\<lambda>c. c / sqrt ?s) quat"
    by (auto simp: from_quat_def Let_def add.assoc split: if_splits)
  have s: "0 \<le> ?s" by simp
  then have ss: "sqrt ?s * sqrt ?s = ?s" by simp
  from n have nz: "?s \<noteq> 0" by auto
  have "a / sqrt ?s * (a / sqrt ?s) + b / sqrt ?s * (b / sqrt ?s) + c / sqrt ?s * (c / sqrt ?s)
          + d / sqrt ?s * (d / sqrt ?s) = ?s / ?s"
    unfolding times_divide_times_eq ss by (simp only: add_divide_distrib)
  also have "\<dots> = 1" using nz by simp
  finally show ?thesis by (simp add: q quat)
qed

lemma as_matrix_orthogonal:
  fixes x y z w :: real
  assumes u: "x * x + y * y + z * z + w * w = 1"
  defines "r \<equiv> as_matrix [x, y, z, w]"
  shows "r ! 0 ! 0 * r ! 0 ! 0 + r ! 1 ! 0 * r ! 1 ! 0 + r ! 2 ! 0 * r ! 2 ! 0 = 1"
    and "r ! 0 ! 1 * r ! 0 ! 1 + r ! 1 ! 1 * r ! 1 ! 1 + r ! 2 ! 1 * r ! 2 ! 1 = 1"
    and "r ! 0 ! 2 * r ! 0 ! 2 + r ! 1 ! 2 * r ! 1 ! 2 + r ! 2 ! 2 * r ! 2 ! 2 = 1"
    and "r ! 0 ! 0 * r ! 0 ! 1 + r ! 1 ! 0 * r ! 1 ! 1 + r ! 2 ! 0 * r ! 2 ! 1 = 0"
    and "r ! 0 ! 0 * r ! 0 ! 2 + r ! 1 ! 0 * r ! 1 ! 2 + r ! 2 ! 0 * r ! 2 ! 2 = 0"
    and "r ! 0 ! 1 * r ! 0 ! 2 + r ! 1 ! 1 * r ! 1 ! 2 + r ! 2 ! 1 * r ! 2 ! 2 = 0"
proof -
  have sq: "(x * x + y * y + z * z + w * w) * (x * x + y * y + z * z + w * w) = 1"
    by (simp add: u)
  show "r ! 0 ! 0 * r ! 0 ! 0 + r ! 1 ! 0 * r ! 1 ! 0 + r ! 2 ! 0 * r ! 2 ! 0 = 1"
    unfolding r_def as_matrix_def Let_def using sq by (simp add: algebra_simps)
  show "r ! 0 ! 1 * r ! 0 ! 1 + r ! 1 ! 1 * r ! 1 ! 1 + r ! 2 ! 1 * r ! 2 ! 1 = 1"
    unfolding r_def as_matrix_def Let_def using sq by (simp add: algebra_simps)
  show "r ! 0 ! 2 * r ! 0 ! 2 + r ! 1 ! 2 * r ! 1 ! 2 + r ! 2 ! 2 * r ! 2 ! 2 = 1"
    unfolding r_def as_matrix_def Let_def using sq by (simp add: algebra_simps)
  show "r ! 0 ! 0 * r ! 0 ! 1 + r ! 1 ! 0 * r ! 1 ! 1 + r ! 2 ! 0 * r ! 2 ! 1 = 0"
    unfolding r_def as_matrix_def Let_def by (simp add: algebra_simps)
  show "r ! 0 ! 0 * r ! 0 ! 2 + r ! 1 ! 0 * r ! 1 ! 2 + r ! 2 ! 0 * r ! 2 ! 2 = 0"
    unfolding r_def as_matrix_def Let_def by (simp add: algebra_simps)
  show "r ! 0 ! 1 * r ! 0 ! 2 + r ! 1 ! 1 * r ! 1 ! 2 + r ! 2 ! 1 * r ! 2 ! 2 = 0"
    unfolding r_def as_matrix_def Let_def by (simp add: algebra_simps)
qed


lemma as_matrix_rows:
  "length (as_matrix q ! 0) = 3" "length (as_matrix q ! 1) = 3" "length (as_matrix q ! 2) = 3"
  by (simp_all add: as_matrix_def Let_def)

lemma linalg_inv_is_inverse:
  assumes "pose_to_matrix p = Inr m"
  shows "matmul (linalg_inv m) m = [[1, 0, 0, 0], [0, 1, 0, 0], [0, 0, 1, 0], [0, 0, 0, 1]]"
proof -
  from assms obtain q where fq: "from_quat (drop 3 p) = Inr q"
    and m: "m = [as_matrix q ! 0 @ [take 3 p ! 0], as_matrix q ! 1 @ [take 3 p ! 1],
                 as_matrix q ! 2 @ [take 3 p ! 2], [0, 0, 0, 1]]"
    by (auto simp: pose_to_matrix_def Let_def split: sum.splits)
  from from_quat_unit [OF fq] obtain x y z w where q: "q = [x, y, z, w]"
    and u: "x * x + y * y + z * z + w * w = 1"
    by (cases q; cases "tl q"; cases "tl (tl q)"; cases "tl (tl (tl q))") auto
  define r where "r = as_matrix [x, y, z, w]"
  define a0 a1 a2 b0 b1 b2 c0 c1 c2 where d:
    "a0 = r ! 0 ! 0" "a1 = r ! 0 ! 1" "a2 = r ! 0 ! 2"
    "b0 = r ! 1 ! 0" "b1 = r ! 1 ! 1" "b2 = r ! 1 ! 2"
    "c0 = r ! 2 ! 0" "c1 = r ! 2 ! 1" "c2 = r ! 2 ! 2"
  note o = as_matrix_orthogonal [OF u, folded r_def, folded d]
  have rows: "r ! 0 = [a0, a1, a2]" "r ! 1 = [b0, b1, b2]" "r ! 2 = [c0, c1, c2]"
    by (simp_all add: d r_def as_matrix_def Let_def)
  have o': "a1 * a0 + b1 * b0 + c1 * c0 = 0" "a2 * a0 + b2 * b0 + c2 * c0 = 0"
      "a2 * a1 + b2 * b1 + c2 * c1 = 0"
    using o(4,5,6) by (simp_all add: mult.commute)
  have m': "m = [[a0, a1, a2, take 3 p ! 0], [b0, b1, b2, take 3 p ! 1],
                 [c0, c1, c2, take 3 p ! 2], [0, 0, 0, 1]]"
    using rows by (simp add: m q r_def)
  show ?thesis
    unfolding m' matmul_def linalg_inv_def Let_def
    by (simp add: o o')
qed

subsection \<open>Binary64 arithmetic\<close>

text \<open>
  The pose arrays hold binary64 numbers. A finite binary64 number is a real \<open>m * 2\<^sup>e\<close> with
  \<open>\<bar>m\<bar> < 2\<^sup>5\<^sup>3\<close> and \<open>-1074 \<le> e \<le> 971\<close>. An arithmetic operation or a square root returns
  the exact result rounded to the nearest such number, ties to the even significand, and
  an infinity when the rounded magnitude reaches \<open>2\<^sup>1\<^sup>0\<^sup>2\<^sup>4\<close>. \<open>binary64 x\<close> is the rounding of
  the real \<open>x\<close>, \<open>None\<close> standing for an infinity.
\<close>

definition round_half_even :: "real \<Rightarrow> int" where
  "round_half_even q =
     (let f = \<lfloor>q\<rfloor>; d = q - of_int f
      in if d < 1 / 2 then f else if d > 1 / 2 then f + 1 else if even f then f else f + 1)"

definition binary64 :: "real \<Rightarrow> real option" where
  "binary64 x =
     (if x = 0 then Some 0
      else (let e = max (\<lfloor>log 2 \<bar>x\<bar>\<rfloor> - 52) (- 1074);
                m = round_half_even (x / 2 powr of_int e);
                y = of_int m * 2 powr of_int e
            in if 2 ^ 1024 \<le> \<bar>y\<bar> then None else Some y))"

subsection \<open>A sample of the video source\<close>

text \<open>
  \<^verbatim>\<open>
  def determine_arrived_label(self, current_pos, target_pos):
      distance_to_goal = np.linalg.norm(target_pos - current_pos, axis=0)
      arrived = distance_to_goal <= self.arrived_threshold
      return arrived
  \<close>
  For a vector and \<^verbatim>\<open>axis=0\<close>, \<^verbatim>\<open>np.linalg.norm\<close> is
  \<^verbatim>\<open>s = (x.conj() * x).real; return sqrt(add.reduce(s, axis=axis))\<close>: the squares, their sum
  from left to right, and the square root, each rounded. An infinity stays one to the end
  (the squares are not negative, so no \<^verbatim>\<open>nan\<close> arises from finite positions), and an
  infinite distance is not below the threshold.
\<close>

definition linalg_norm :: "real option list \<Rightarrow> real option" where
  "linalg_norm x =
     (let s = map (\<lambda>c. Option.bind c (\<lambda>v. binary64 (v * v))) x;
          total = foldl (\<lambda>acc c. Option.bind acc (\<lambda>a. Option.bind c (\<lambda>v. binary64 (a + v))))
                    (Some 0) s
      in Option.bind total (\<lambda>t. binary64 (sqrt t)))"

definition determine_arrived_label :: "(real, 'z) config_scheme \<Rightarrow> real list \<Rightarrow> real list \<Rightarrow> bool" where
  "determine_arrived_label cfg current_pos target_pos =
     (let distance_to_goal = linalg_norm (map2 (\<lambda>t c. binary64 (t - c)) target_pos current_pos);
          arrived = (case distance_to_goal of
                       None \<Rightarrow> False
                     | Some d \<Rightarrow> d \<le> arrived_threshold cfg)
      in arrived)"

text \<open>
  \<^verbatim>\<open>
  def extract_waypoints(self, pose, pose_start):
      waypoint_start = pose_start + self.context_size
      waypoint_end = waypoint_start + self.wp_length
      waypoint_poses = pose[waypoint_start: waypoint_end]
      return waypoint_poses
  \<close>
\<close>

definition extract_waypoints :: "('thr, 'z) config_scheme \<Rightarrow> 'row list \<Rightarrow> nat \<Rightarrow> 'row list" where
  "extract_waypoints cfg pose pose_start =
     (let waypoint_start = int pose_start + context_size cfg;
          waypoint_end = waypoint_start + wp_length cfg
      in py_slice pose waypoint_start waypoint_end)"

text \<open>
  \<^verbatim>\<open>
  def add_noise(self, input_poses):
      noise = np.random.normal(0, self.input_noise, input_poses[:, :3].shape)
      input_poses[:, :3] += noise
      return input_poses
  \<close>
  The realisation of the noise is the parameter \<open>noise\<close>: \<open>noise i j\<close> is the value drawn
  for row \<open>i\<close>, column \<open>j\<close>. The orientation columns are untouched.
\<close>

definition add_noise :: "real list list \<Rightarrow> (nat \<Rightarrow> nat \<Rightarrow> real) \<Rightarrow> real list list" where
  "add_noise input_poses noise =
     map (\<lambda>(i, pose). map2 (+) (take 3 pose) [noise i 0, noise i 1, noise i 2] @ drop 3 pose)
       (enumerate 0 input_poses)"

text \<open>
  The sample, without the frame tensor. The label is the float tensor of the boolean; the
  last four fields exist in validation mode only.
\<close>

record sample =
  input_positions :: "real list list"
  waypoints :: "real list list"
  arrived :: real
  original_input_positions :: "real list list option"
  noisy_input_positions :: "real list list option"
  gt_waypoints :: "real list list option"
  target_transformed :: "real list option"

text \<open>The column selection \<^verbatim>\<open>[:, [0, 2]]\<close>.\<close>

definition columns_0_2 :: "real list list \<Rightarrow> real list list" where
  "columns_0_2 positions = map (\<lambda>p. [p ! 0, p ! 2]) positions"

text \<open>
  The part of \<^verbatim>\<open>__getitem__\<close> after the target index is drawn (lines 140 to 179), for the
  drawn index \<open>target_idx\<close> (\<open>arrived_label\<close> and \<open>target_position\<close> stand for the
  variables \<^verbatim>\<open>arrived\<close> and \<^verbatim>\<open>target_transformed\<close>): the label is computed from the input poses before the noise
  is added; the reference pose \<^verbatim>\<open>current_pose = input_poses[-1]\<close> is read after it.
\<close>

definition cw_sample ::
  "(real, 'z) config_scheme \<Rightarrow> string \<Rightarrow> real list list \<Rightarrow> nat \<Rightarrow> real list list \<Rightarrow>
   real list list \<Rightarrow> (nat \<Rightarrow> nat \<Rightarrow> real) \<Rightarrow> int \<Rightarrow> py_error + sample" where
  "cw_sample cfg mode pose pose_start input_poses future_poses noise target_idx =
     (let original_input_poses = input_poses;
          target_pose = future_poses ! nat target_idx
      in case py_last input_poses of
           Inl e \<Rightarrow> Inl e
         | Inr last_input \<Rightarrow>
     (let arrived_label = determine_arrived_label cfg (take 3 last_input) (take 3 target_pose);
          waypoint_poses = extract_waypoints cfg pose pose_start;
          input_poses = (if input_noise cfg > 0 then add_noise input_poses noise else input_poses);
          current_pose = last input_poses
      in case transform_poses input_poses current_pose of
           Inl e \<Rightarrow> Inl e
         | Inr transformed_input_positions \<Rightarrow>
      (case transform_poses original_input_poses current_pose of
           Inl e \<Rightarrow> Inl e
         | Inr transformed_original_input_positions \<Rightarrow>
      (case transform_waypoints waypoint_poses current_pose of
           Inl e \<Rightarrow> Inl e
         | Inr waypoints_transformed \<Rightarrow>
      (case transform_target_pose target_pose current_pose of
           Inl e \<Rightarrow> Inl e
         | Inr target_position \<Rightarrow>
             Inr \<lparr>input_positions = columns_0_2 transformed_input_positions,
                  waypoints = columns_0_2 waypoints_transformed,
                  arrived = (if arrived_label then 1 else 0),
                  original_input_positions =
                    (if mode = ''val'' then Some (columns_0_2 transformed_original_input_positions)
                     else None),
                  noisy_input_positions =
                    (if mode = ''val'' then Some (columns_0_2 transformed_input_positions)
                     else None),
                  gt_waypoints =
                    (if mode = ''val'' then Some (columns_0_2 waypoints_transformed) else None),
                  target_transformed =
                    (if mode = ''val'' then Some [target_position ! 0, target_position ! 2]
                     else None)\<rparr>)))))"

text \<open>
  \<^verbatim>\<open>select_target_pose\<close> draws \<^verbatim>\<open>target_idx = random.randint(0, future_poses.shape[0] - 1)\<close>.
  A request on the pose array \<open>pose\<close> at offset \<open>pose_start\<close>, for a given realisation of
  the noise, returns the error raised before the draw, or one result for each equally
  likely value of \<open>target_idx\<close>.
\<close>

definition cw_getitem ::
  "(real, 'z) config_scheme \<Rightarrow> string \<Rightarrow> real list list \<Rightarrow> nat \<Rightarrow> (nat \<Rightarrow> nat \<Rightarrow> real) \<Rightarrow>
   py_error + (int \<times> (py_error + sample)) list" where
  "cw_getitem cfg mode pose pose_start noise =
     (case get_input_and_future_poses cfg pose pose_start of
        Inl e \<Rightarrow> Inl e
      | Inr (input_poses, future_poses) \<Rightarrow>
          (case randint 0 (int (length future_poses) - 1) of
             Inl e \<Rightarrow> Inl e
           | Inr targets \<Rightarrow>
               Inr (map (\<lambda>target_idx.
                           (target_idx,
                            cw_sample cfg mode pose pose_start input_poses future_poses noise
                              target_idx))
                      targets)))"

text \<open>Rounding leaves a binary64 number as it is; in particular every integer of magnitude
  below \<open>2\<^sup>5\<^sup>3\<close>.\<close>

lemma round_half_even_of_int: "round_half_even (of_int z) = z"
  by (simp add: round_half_even_def)

lemma binary64_exact:
  assumes "x \<noteq> 0" and "\<bar>x\<bar> < 2 ^ 1024"
    and "x / 2 powr of_int (max (\<lfloor>log 2 \<bar>x\<bar>\<rfloor> - 52) (- 1074)) = of_int z"
  shows "binary64 x = Some x"
proof -
  let ?e = "max (\<lfloor>log 2 \<bar>x\<bar>\<rfloor> - 52) (- 1074)"
  have p: "2 powr of_int ?e \<noteq> (0::real)" by simp
  have "of_int z * 2 powr of_int ?e = x"
    using assms(3) p by (metis nonzero_divide_eq_eq)
  then show ?thesis
    using assms(1,2) by (simp add: binary64_def Let_def assms(3) round_half_even_of_int)
qed

lemma binary64_of_int:
  assumes "\<bar>n\<bar> < 2 ^ 53"
  shows "binary64 (of_int n) = Some (of_int n)"
proof (cases "n = 0")
  case True
  then show ?thesis by (simp add: binary64_def)
next
  case False
  let ?x = "of_int n :: real"
  let ?l = "\<lfloor>log 2 \<bar>?x\<bar>\<rfloor>"
  from False have "1 \<le> \<bar>n\<bar>" by simp
  then have "(1::real) \<le> of_int \<bar>n\<bar>" by (simp only: of_int_1_le_iff)
  then have ge1: "1 \<le> \<bar>?x\<bar>" by simp
  from assms have "(of_int \<bar>n\<bar> :: real) < of_int (2 ^ 53)" by (simp only: of_int_less_iff)
  then have lt: "\<bar>?x\<bar> < 2 ^ 53" by simp
  have l0: "0 \<le> log 2 \<bar>?x\<bar>" using ge1 by simp
  have "log 2 \<bar>?x\<bar> < 53"
    using lt ge1 by (simp add: log_less_iff powr_realpow [symmetric] flip: powr_numeral)
  then have lu: "?l \<le> 52" by linarith
  from l0 have ll: "0 \<le> ?l" by simp
  define k where "k = nat (52 - ?l)"
  have e: "max (?l - 52) (- 1074) = - int k"
    using lu ll by (simp add: k_def)
  have pw: "2 powr of_int (- int k) = 1 / (2::real) ^ k"
    by (simp add: powr_minus powr_realpow field_simps)
  have q: "?x / 2 powr of_int (max (?l - 52) (- 1074)) = of_int (n * 2 ^ k)"
    unfolding e pw by simp
  have "\<bar>?x\<bar> < 2 ^ 1024"
    using lt by (rule less_trans) simp
  with False q show ?thesis
    by (intro binary64_exact [where z = "n * 2 ^ k"]) simp_all
qed

lemma binary64_numeral:
  "numeral w < (2::int) ^ 53 \<Longrightarrow> binary64 (numeral w) = Some (numeral w)"
  "numeral w < (2::int) ^ 53 \<Longrightarrow> binary64 (- numeral w) = Some (- numeral w)"
  "binary64 1 = Some 1" "binary64 (- 1) = Some (- 1)" "binary64 0 = Some 0"
  using binary64_of_int [of "numeral w"] binary64_of_int [of "- numeral w"]
    binary64_of_int [of 1] binary64_of_int [of "- 1"] binary64_of_int [of 0]
  by simp_all

lemma sqrt_squares: "sqrt 4 = 2" "sqrt 9 = 3" "sqrt 25 = 5"
  by (rule real_sqrt_unique; simp)+

text \<open>The rounding of a number of the binade \<open>[2\<^sup>n, 2\<^sup>n\<^sup>+\<^sup>1)\<close>, and three instances: two
  powers of two are kept, and \<open>1 + 2\<^sup>-\<^sup>6\<^sup>0\<close> is rounded to 1.\<close>

lemma binary64_binade:
  assumes "2 powr of_int n \<le> \<bar>x\<bar>" and "\<bar>x\<bar> < 2 powr of_int (n + 1)" and "- 1022 \<le> n"
  shows "binary64 x =
           (let y = of_int (round_half_even (x * 2 powr of_int (52 - n))) * 2 powr of_int (n - 52)
            in if 2 ^ 1024 \<le> \<bar>y\<bar> then None else Some y)"
proof -
  have pos: "0 < \<bar>x\<bar>"
    using assms(1) by (smt (verit) powr_gt_zero)
  then have nz: "x \<noteq> 0" by simp
  have fl: "\<lfloor>log 2 \<bar>x\<bar>\<rfloor> = n"
    using assms(1,2) pos by (simp add: floor_log_eq_powr_iff)
  have e: "max (n - 52) (- 1074) = n - 52"
    using assms(3) by simp
  have d: "x / 2 powr of_int (n - 52) = x * 2 powr of_int (52 - n)"
    by (simp add: powr_diff field_simps)
  show ?thesis
    by (simp only: binary64_def Let_def fl e d nz if_False)
qed

lemma binary64_rounding_examples:
  "binary64 (1 / 2 ^ 30) = Some (1 / 2 ^ 30)"
  "binary64 (1 / 2 ^ 60) = Some (1 / 2 ^ 60)"
  "binary64 (1 + 1 / 2 ^ 60) = Some 1"
proof -
  have "binary64 (1 / 2 ^ 30) =
      (let y = of_int (round_half_even (1 / 2 ^ 30 * 2 powr of_int (52 - (- 30)))) * 2 powr of_int (- 30 - 52)
            in if 2 ^ 1024 \<le> \<bar>y\<bar> then None else Some y)"
    by (rule binary64_binade) (simp_all add: powr_minus)
  moreover have "round_half_even (1 / 2 ^ 30 * 2 powr of_int (52 - (- 30))) = 2 ^ 52"
    by (simp add: round_half_even_def Let_def)
  ultimately show "binary64 (1 / 2 ^ 30) = Some (1 / 2 ^ 30)"
    by (simp add: Let_def powr_minus)
  have "binary64 (1 / 2 ^ 60) =
      (let y = of_int (round_half_even (1 / 2 ^ 60 * 2 powr of_int (52 - (- 60)))) * 2 powr of_int (- 60 - 52)
            in if 2 ^ 1024 \<le> \<bar>y\<bar> then None else Some y)"
    by (rule binary64_binade) (simp_all add: powr_minus)
  moreover have "round_half_even (1 / 2 ^ 60 * 2 powr of_int (52 - (- 60))) = 2 ^ 52"
    by (simp add: round_half_even_def Let_def)
  ultimately show "binary64 (1 / 2 ^ 60) = Some (1 / 2 ^ 60)"
    by (simp add: Let_def powr_minus)
  have "binary64 (1 + 1 / 2 ^ 60) =
      (let y = of_int (round_half_even ((1 + 1 / 2 ^ 60) * 2 powr of_int (52 - 0))) * 2 powr of_int (0 - 52)
            in if 2 ^ 1024 \<le> \<bar>y\<bar> then None else Some y)"
    by (rule binary64_binade) simp_all
  moreover have "round_half_even ((1 + 1 / 2 ^ 60) * 2 powr of_int (52 - 0)) = 2 ^ 52"
    by (simp add: round_half_even_def Let_def)
  ultimately show "binary64 (1 + 1 / 2 ^ 60) = Some 1"
    by (simp add: Let_def powr_minus)
qed

definition example_pose :: "real list list" where
  "example_pose =
     [[0, 0, 0, 0, 0, 0, 1], [2, 0, 0, 0, 0, 0, 1], [3, 0, 4, 0, 0, 0, 1], [4, 0, 0, 0, 0, 0, 1]]"



subsection \<open>The arrival label and the reference frame of the video source\<close>

lemma cw_sample_InrD:
  assumes "cw_sample cfg mode pose pose_start input future noise t = Inr s"
  defines "noised \<equiv> (if input_noise cfg > 0 then add_noise input noise else input)"
  shows "input \<noteq> []"
    and "\<exists>ti torig wps tgt.
           transform_poses noised (last noised) = Inr ti \<and>
           transform_poses input (last noised) = Inr torig \<and>
           transform_waypoints (extract_waypoints cfg pose pose_start) (last noised) = Inr wps \<and>
           transform_target_pose (future ! nat t) (last noised) = Inr tgt \<and>
           s = \<lparr>input_positions = columns_0_2 ti,
                 waypoints = columns_0_2 wps,
                 arrived = (if determine_arrived_label cfg (take 3 (last input))
                                  (take 3 (future ! nat t)) then 1 else 0),
                 original_input_positions =
                   (if mode = ''val'' then Some (columns_0_2 torig) else None),
                 noisy_input_positions =
                   (if mode = ''val'' then Some (columns_0_2 ti) else None),
                 gt_waypoints = (if mode = ''val'' then Some (columns_0_2 wps) else None),
                 target_transformed =
                   (if mode = ''val'' then Some [tgt ! 0, tgt ! 2] else None)\<rparr>"
proof -
  from assms(1) show ne: "input \<noteq> []"
    by (auto simp: cw_sample_def py_last_def Let_def split: if_splits)
  then have pl: "py_last input = Inr (last input)"
    by (simp add: py_last_def)
  from assms(1) obtain ti torig wps tgt where
    "transform_poses noised (last noised) = Inr ti"
    "transform_poses input (last noised) = Inr torig"
    "transform_waypoints (extract_waypoints cfg pose pose_start) (last noised) = Inr wps"
    "transform_target_pose (future ! nat t) (last noised) = Inr tgt"
    "s = \<lparr>input_positions = columns_0_2 ti,
                 waypoints = columns_0_2 wps,
                 arrived = (if determine_arrived_label cfg (take 3 (last input))
                                  (take 3 (future ! nat t)) then 1 else 0),
                 original_input_positions =
                   (if mode = ''val'' then Some (columns_0_2 torig) else None),
                 noisy_input_positions =
                   (if mode = ''val'' then Some (columns_0_2 ti) else None),
                 gt_waypoints = (if mode = ''val'' then Some (columns_0_2 wps) else None),
                 target_transformed =
                   (if mode = ''val'' then Some [tgt ! 0, tgt ! 2] else None)\<rparr>"
    unfolding cw_sample_def Let_def pl noised_def
    by (auto split: sum.splits)
  then show "\<exists>ti torig wps tgt.
           transform_poses noised (last noised) = Inr ti \<and>
           transform_poses input (last noised) = Inr torig \<and>
           transform_waypoints (extract_waypoints cfg pose pose_start) (last noised) = Inr wps \<and>
           transform_target_pose (future ! nat t) (last noised) = Inr tgt \<and>
           s = \<lparr>input_positions = columns_0_2 ti,
                 waypoints = columns_0_2 wps,
                 arrived = (if determine_arrived_label cfg (take 3 (last input))
                                  (take 3 (future ! nat t)) then 1 else 0),
                 original_input_positions =
                   (if mode = ''val'' then Some (columns_0_2 torig) else None),
                 noisy_input_positions =
                   (if mode = ''val'' then Some (columns_0_2 ti) else None),
                 gt_waypoints = (if mode = ''val'' then Some (columns_0_2 wps) else None),
                 target_transformed =
                   (if mode = ''val'' then Some [tgt ! 0, tgt ! 2] else None)\<rparr>"
    by blast
qed

lemma cw_getitem_InrD:
  assumes "cw_getitem cfg mode pose pose_start noise = Inr outcomes"
  shows "\<exists>input future.
           get_input_and_future_poses cfg pose pose_start = Inr (input, future) \<and>
           future \<noteq> [] \<and>
           outcomes = map (\<lambda>t. (t, cw_sample cfg mode pose pose_start input future noise t))
                        [0..int (length future) - 1]"
proof -
  from assms obtain input future
    where g: "get_input_and_future_poses cfg pose pose_start = Inr (input, future)"
    by (auto simp: cw_getitem_def split: sum.splits)
  then have ne: "future \<noteq> []"
    by (auto simp: get_input_and_future_poses_def Let_def split: if_splits)
  then have "randint 0 (int (length future) - 1) = Inr [0..int (length future) - 1]"
    by (cases future) (simp_all add: randint_def)
  with assms g ne show ?thesis
    by (auto simp: cw_getitem_def)
qed

lemma pose_to_matrix_length: "pose_to_matrix p = Inr m \<Longrightarrow> length p = 7"
  by (auto simp: pose_to_matrix_def from_quat_def Let_def split: sum.splits if_splits)

lemma transform_target_pose_lengths:
  "transform_target_pose target current = Inr x \<Longrightarrow> length target = 7 \<and> length current = 7"
  by (auto simp: transform_target_pose_def Let_def split: sum.splits dest: pose_to_matrix_length)

lemma last_enumerate:
  "xs \<noteq> [] \<Longrightarrow> last (enumerate n xs) = (n + length xs - 1, last xs)"
proof (induction xs arbitrary: n)
  case Nil
  then show ?case by simp
next
  case (Cons x xs)
  have e: "(enumerate (Suc n) xs = []) = (xs = [])"
    by (cases xs) simp_all
  show ?case
  proof (cases "xs = []")
    case True
    then show ?thesis by simp
  next
    case False
    with Cons.IH [OF False, of "Suc n"] e show ?thesis by simp
  qed
qed

lemma add_noise_last:
  assumes "input \<noteq> []"
  shows "last (add_noise input noise) =
           map2 (+) (take 3 (last input))
             [noise (length input - 1) 0, noise (length input - 1) 1, noise (length input - 1) 2]
           @ drop 3 (last input)"
proof -
  from assms have "enumerate 0 input \<noteq> []"
    by (cases input) simp_all
  moreover have "last (enumerate 0 input) = (length input - 1, last input)"
    using last_enumerate [OF assms, of 0] by simp
  ultimately show ?thesis
    by (simp add: add_noise_def last_map)
qed

lemma length_noised_row:
  "length (map2 (+) (take 3 row) [a, b, c :: real] @ drop 3 row) = length row"
  by simp

lemma take3_of_7:
  "length p = 7 \<Longrightarrow> take 3 p = [p ! 0, p ! 1, p ! 2]"
  by (cases p; cases "tl p"; cases "tl (tl p)") auto

lemma cw_sample_reference:
  assumes "cw_sample cfg mode pose pose_start input future noise t = Inr s"
  defines "reference \<equiv> (if 0 < input_noise cfg
                   then map2 (+) (take 3 (last input))
                          [noise (length input - 1) 0, noise (length input - 1) 1,
                           noise (length input - 1) 2] @ drop 3 (last input)
                   else last input)"
  shows "\<exists>torig wps tgt.
           transform_poses input reference = Inr torig \<and>
           transform_waypoints (extract_waypoints cfg pose pose_start) reference = Inr wps \<and>
           transform_target_pose (future ! nat t) reference = Inr tgt \<and>
           waypoints s = columns_0_2 wps \<and>
           original_input_positions s = (if mode = ''val'' then Some (columns_0_2 torig) else None) \<and>
           target_transformed s = (if mode = ''val'' then Some [tgt ! 0, tgt ! 2] else None)"
    and "length (last input) = 7" and "length (future ! nat t) = 7"
    and "arrived s = (if determine_arrived_label cfg (take 3 (last input))
                           (take 3 (future ! nat t)) then 1 else 0)"
proof -
  note d = cw_sample_InrD [OF assms(1)]
  have r: "last (if input_noise cfg > 0 then add_noise input noise else input) = reference"
    by (simp add: reference_def add_noise_last [OF d(1)])
  from d(2) obtain ti torig wps tgt where
    t: "transform_poses input reference = Inr torig"
       "transform_waypoints (extract_waypoints cfg pose pose_start) reference = Inr wps"
       "transform_target_pose (future ! nat t) reference = Inr tgt"
    and s: "s = \<lparr>input_positions = columns_0_2 ti,
                 waypoints = columns_0_2 wps,
                 arrived = (if determine_arrived_label cfg (take 3 (last input))
                                  (take 3 (future ! nat t)) then 1 else 0),
                 original_input_positions =
                   (if mode = ''val'' then Some (columns_0_2 torig) else None),
                 noisy_input_positions =
                   (if mode = ''val'' then Some (columns_0_2 ti) else None),
                 gt_waypoints = (if mode = ''val'' then Some (columns_0_2 wps) else None),
                 target_transformed =
                   (if mode = ''val'' then Some [tgt ! 0, tgt ! 2] else None)\<rparr>"
    unfolding r by blast
  from t s show "\<exists>torig wps tgt.
           transform_poses input reference = Inr torig \<and>
           transform_waypoints (extract_waypoints cfg pose pose_start) reference = Inr wps \<and>
           transform_target_pose (future ! nat t) reference = Inr tgt \<and>
           waypoints s = columns_0_2 wps \<and>
           original_input_positions s = (if mode = ''val'' then Some (columns_0_2 torig) else None) \<and>
           target_transformed s = (if mode = ''val'' then Some [tgt ! 0, tgt ! 2] else None)"
    by simp
  from transform_target_pose_lengths [OF t(3)]
  have l: "length (future ! nat t) = 7" "length reference = 7" by simp_all
  from l(2) show "length (last input) = 7"
    by (simp add: reference_def split: if_splits)
  from l(1) show "length (future ! nat t) = 7" .
  from s show "arrived s = (if determine_arrived_label cfg (take 3 (last input))
                           (take 3 (future ! nat t)) then 1 else 0)"
    by simp
qed










subsection \<open>The effect of a request on the stored poses\<close>

text \<open>
  \<^verbatim>\<open>input_poses\<close> is a slice of the stored array \<^verbatim>\<open>self.poses[video_idx]\<close>, a view, and
  \<^verbatim>\<open>add_noise\<close> adds the noise in place (\<^verbatim>\<open>input_poses[:, :3] += noise\<close>, line 215); the copy
  \<^verbatim>\<open>original_input_poses\<close> is taken before. A request with \<open>input_noise > 0\<close> that reaches
  line 150 (its future window and its input window are not empty) therefore leaves the
  noised rows in the stored sequence, where every later request reads them. The waypoint
  and future windows start where the input window ends, so within one request they are
  read unchanged.
\<close>

definition stored_pose_after ::
  "(real, 'z) config_scheme \<Rightarrow> real list list \<Rightarrow> nat \<Rightarrow> (nat \<Rightarrow> nat \<Rightarrow> real) \<Rightarrow> real list list" where
  "stored_pose_after cfg pose pose_start noise =
     (case get_input_and_future_poses cfg pose pose_start of
        Inl e \<Rightarrow> pose
      | Inr (input_poses, future_poses) \<Rightarrow>
          if input_poses \<noteq> [] \<and> input_noise cfg > 0
          then (let lo = slice_index (length pose) (int pose_start);
                    hi = slice_index (length pose) (int pose_start + context_size cfg)
                in take lo pose @ add_noise input_poses noise @ drop (lo + (hi - lo)) pose)
          else pose)"

text \<open>
  A request as a step on the stored sequence: what \<^verbatim>\<open>__getitem__\<close> returns, and the
  sequence it leaves behind for the next request.
\<close>

definition cw_request ::
  "(real, 'z) config_scheme \<Rightarrow> string \<Rightarrow> real list list \<Rightarrow> nat \<Rightarrow> (nat \<Rightarrow> nat \<Rightarrow> real) \<Rightarrow>
   (py_error + (int \<times> (py_error + sample)) list) \<times> real list list" where
  "cw_request cfg mode pose pose_start noise =
     (cw_getitem cfg mode pose pose_start noise, stored_pose_after cfg pose pose_start noise)"

text \<open>The Euclidean distance between the positions of two poses, as the specification
  words it.\<close>

definition position_distance :: "real list \<Rightarrow> real list \<Rightarrow> real" where
  "position_distance a b = sqrt ((b ! 0 - a ! 0)\<^sup>2 + (b ! 1 - a ! 1)\<^sup>2 + (b ! 2 - a ! 2)\<^sup>2)"

lemma length_add_noise: "length (add_noise input noise) = length input"
  by (simp add: add_noise_def)

lemma length_stored_pose_after:
  "length (stored_pose_after cfg pose pose_start noise) = length pose"
  by (auto simp: stored_pose_after_def get_input_and_future_poses_def Let_def length_add_noise
      py_slice_def slice_index_def split: sum.splits)

lemma stored_pose_after_example:
  "stored_pose_after ((example_cfg (1::real))\<lparr>input_noise := 1\<rparr>) example_pose 0 (\<lambda>i j. 1) =
     [[1, 1, 1, 0, 0, 0, 1], [2, 0, 0, 0, 0, 0, 1], [3, 0, 4, 0, 0, 0, 1], [4, 0, 0, 0, 0, 0, 1]]"
  by (simp add: stored_pose_after_def get_input_and_future_poses_def example_cfg_def
      example_pose_def py_slice_def slice_index_def add_noise_def Let_def)

text \<open>
  The label of a request is computed from the sequence as it is stored when the request
  is made: one result for each target offset \<open>0, \<dots>, len(future) - 1\<close>, the equally likely
  values of \<^verbatim>\<open>random.randint(0, len(future) - 1)\<close>, and in each sample the label of the
  rounded distance between the stored position of the last input row and the position of
  the target row, whatever the noise of this request.
\<close>

lemma arrival_label_of_stored_poses:
  assumes "cw_getitem cfg mode pose pose_start noise = Inr outcomes"
  shows "\<exists>input future.
           get_input_and_future_poses cfg pose pose_start = Inr (input, future) \<and>
           map fst outcomes = [0..int (length future) - 1] \<and>
           (\<forall>(t, res)\<in>set outcomes. \<forall>s. res = Inr s \<longrightarrow>
              arrived s =
                (if determine_arrived_label cfg (take 3 (last input)) (take 3 (future ! nat t))
                 then 1 else 0))"
proof -
  from cw_getitem_InrD [OF assms] obtain input future where
    g: "get_input_and_future_poses cfg pose pose_start = Inr (input, future)"
    and o: "outcomes = map (\<lambda>t. (t, cw_sample cfg mode pose pose_start input future noise t))
                        [0..int (length future) - 1]"
    by blast
  have m: "map fst outcomes = [0..int (length future) - 1]"
    by (simp add: o comp_def)
  have "arrived s =
          (if determine_arrived_label cfg (take 3 (last input)) (take 3 (future ! nat t))
           then 1 else 0)"
    if "(t, res) \<in> set outcomes" and "res = Inr s" for t res s
  proof -
    from that o have c: "cw_sample cfg mode pose pose_start input future noise t = Inr s"
      by auto
    from cw_sample_reference(4) [OF c] show ?thesis .
  qed
  with g m show ?thesis by blast
qed

text \<open>
  The distance that is compared is the rounded one: for a last input position
  \<open>(0, 0, 0)\<close>, a target position \<open>(1, 2\<^sup>-\<^sup>3\<^sup>0, 0)\<close> and a threshold of 1 the sum of the squares
  \<open>1 + 2\<^sup>-\<^sup>6\<^sup>0\<close> is rounded to 1 and the target counts as reached, although the distance
  exceeds 1.
\<close>

lemma arrival_label_rounds_the_distance:
  "determine_arrived_label (example_cfg 1) [0, 0, 0] [1, 1 / 2 ^ 30, 0] \<and>
   1 < sqrt ((1 - 0)\<^sup>2 + (1 / 2 ^ 30 - 0)\<^sup>2 + (0 - 0)\<^sup>2 :: real)"
proof
  note b = binary64_rounding_examples [simplified]
  show "determine_arrived_label (example_cfg 1) [0, 0, 0] [1, 1 / 2 ^ 30, 0]"
    by (simp add: determine_arrived_label_def linalg_norm_def example_cfg_def Let_def
        binary64_numeral b)
  show "1 < sqrt ((1 - 0)\<^sup>2 + (1 / 2 ^ 30 - 0)\<^sup>2 + (0 - 0)\<^sup>2 :: real)"
    by (simp add: power2_eq_square)
qed

text \<open>
  Claim C6. The label should be 1 exactly when the distance between the position of the
  last input pose, before any noise, and the position of the selected target is at most
  the threshold. The code reads the position from the stored sequence, and the noise of
  earlier requests is still in it. With a threshold of \<open>5/2\<close>, the request at offset 0 of a
  log whose first two positions are \<open>(0, 0, 0)\<close> and \<open>(2, 0, 0)\<close> is labelled 1 the first
  time; its noise \<open>(-1, 0, 0)\<close> stays in the stored sequence, and the same request, made
  again, measures 3 and is labelled 0, while the distance in the log is 2.
\<close>

theorem arrival_label_reads_earlier_noise:
  "cw_request ((example_cfg (5 / 2))\<lparr>input_noise := 1\<rparr>) ''train'' example_pose 0
     (\<lambda>i j. if j = 0 then - 1 else 0) =
     (Inr [(0, Inr \<lparr>input_positions = [[0, 0]], waypoints = [[3, 0]], arrived = 1,
                    original_input_positions = None, noisy_input_positions = None,
                    gt_waypoints = None, target_transformed = None\<rparr>)],
      [[- 1, 0, 0, 0, 0, 0, 1], [2, 0, 0, 0, 0, 0, 1], [3, 0, 4, 0, 0, 0, 1],
       [4, 0, 0, 0, 0, 0, 1]]) \<and>
   cw_request ((example_cfg (5 / 2))\<lparr>input_noise := 1\<rparr>) ''train''
     (snd (cw_request ((example_cfg (5 / 2))\<lparr>input_noise := 1\<rparr>) ''train'' example_pose 0
             (\<lambda>i j. if j = 0 then - 1 else 0))) 0
     (\<lambda>i j. 1) =
     (Inr [(0, Inr \<lparr>input_positions = [[0, 0]], waypoints = [[2, - 1]], arrived = 0,
                    original_input_positions = None, noisy_input_positions = None,
                    gt_waypoints = None, target_transformed = None\<rparr>)],
      [[0, 1, 1, 0, 0, 0, 1], [2, 0, 0, 0, 0, 0, 1], [3, 0, 4, 0, 0, 0, 1],
       [4, 0, 0, 0, 0, 0, 1]]) \<and>
   position_distance (example_pose ! 0) (example_pose ! 1) = 2 \<and>
   arrived_threshold ((example_cfg (5 / 2 :: real))\<lparr>input_noise := 1\<rparr>) = 5 / 2"
proof -
  let ?cfg = "(example_cfg (5 / 2 :: real))\<lparr>input_noise := 1\<rparr>"
  let ?noised = "[[- 1, 0, 0, 0, 0, 0, 1], [2, 0, 0, 0, 0, 0, 1], [3, 0, 4, 0, 0, 0, 1],
       [4, 0, 0, 0, 0, 0, 1 :: real]]"
  have first: "cw_request ?cfg ''train'' example_pose 0 (\<lambda>i j. if j = 0 then - 1 else 0) =
     (Inr [(0, Inr \<lparr>input_positions = [[0, 0]], waypoints = [[3, 0]], arrived = 1,
                    original_input_positions = None, noisy_input_positions = None,
                    gt_waypoints = None, target_transformed = None\<rparr>)], ?noised)"
    by (simp add: cw_request_def stored_pose_after_def cw_getitem_def
      get_input_and_future_poses_def py_slice_def slice_index_def
      example_cfg_def example_pose_def randint_def cw_sample_def py_last_def
      determine_arrived_label_def linalg_norm_def binary64_numeral sqrt_squares
      extract_waypoints_def add_noise_def
      transform_poses_def transform_waypoints_def transform_target_pose_def pose_to_matrix_def
      from_quat_def as_matrix_def linalg_inv_def matmul_def translation_def columns_0_2_def
      Let_def)
  have second: "cw_request ?cfg ''train'' ?noised 0 (\<lambda>i j. 1) =
     (Inr [(0, Inr \<lparr>input_positions = [[0, 0]], waypoints = [[2, - 1]], arrived = 0,
                    original_input_positions = None, noisy_input_positions = None,
                    gt_waypoints = None, target_transformed = None\<rparr>)],
      [[0, 1, 1, 0, 0, 0, 1], [2, 0, 0, 0, 0, 0, 1], [3, 0, 4, 0, 0, 0, 1],
       [4, 0, 0, 0, 0, 0, 1]])"
    by (simp add: cw_request_def stored_pose_after_def cw_getitem_def
      get_input_and_future_poses_def py_slice_def slice_index_def
      example_cfg_def randint_def cw_sample_def py_last_def
      determine_arrived_label_def linalg_norm_def binary64_numeral sqrt_squares
      extract_waypoints_def add_noise_def
      transform_poses_def transform_waypoints_def transform_target_pose_def pose_to_matrix_def
      from_quat_def as_matrix_def linalg_inv_def matmul_def translation_def columns_0_2_def
      Let_def)
  have d: "position_distance (example_pose ! 0) (example_pose ! 1) = 2"
    by (simp add: position_distance_def example_pose_def)
  have t: "arrived_threshold ?cfg = 5 / 2"
    by (simp add: example_cfg_def)
  from first second d t show ?thesis
    by (simp only: snd_conv simp_thms)
qed

subsection \<open>Requests on well-formed poses succeed\<close>

text \<open>A pose row is well formed when it has seven components and its quaternion is not
  zero; these are the rows \<open>pose_to_matrix\<close> accepts.\<close>

definition well_formed_pose :: "real list \<Rightarrow> bool" where
  "well_formed_pose p =
     (length p = 7 \<and> (p ! 3 \<noteq> 0 \<or> p ! 4 \<noteq> 0 \<or> p ! 5 \<noteq> 0 \<or> p ! 6 \<noteq> 0))"

lemma drop3_of_7:
  "length p = 7 \<Longrightarrow> drop 3 p = [p ! 3, p ! 4, p ! 5, p ! 6]"
  by (cases p; cases "tl p"; cases "tl (tl p)"; cases "tl (tl (tl p))";
      cases "tl (tl (tl (tl p)))"; cases "tl (tl (tl (tl (tl p))))";
      cases "tl (tl (tl (tl (tl (tl p)))))") auto

lemma pose_to_matrix_total:
  assumes "well_formed_pose p"
  shows "\<exists>m. pose_to_matrix p = Inr m"
proof -
  from assms have l: "length p = 7"
    and nz: "p ! 3 \<noteq> 0 \<or> p ! 4 \<noteq> 0 \<or> p ! 5 \<noteq> 0 \<or> p ! 6 \<noteq> 0"
    by (simp_all add: well_formed_pose_def)
  let ?s = "p ! 3 * p ! 3 + p ! 4 * p ! 4 + p ! 5 * p ! 5 + p ! 6 * p ! 6"
  have "0 \<le> p ! 3 * p ! 3" "0 \<le> p ! 4 * p ! 4" "0 \<le> p ! 5 * p ! 5" "0 \<le> p ! 6 * p ! 6"
    by simp_all
  moreover from nz have "0 < p ! 3 * p ! 3 \<or> 0 < p ! 4 * p ! 4 \<or> 0 < p ! 5 * p ! 5 \<or> 0 < p ! 6 * p ! 6"
    by (auto simp: zero_less_mult_iff not_less_iff_gr_or_eq)
  ultimately have "0 < ?s" by linarith
  then have "sqrt ?s \<noteq> 0" by simp
  then have "\<exists>q. from_quat (drop 3 p) = Inr q"
    by (simp add: from_quat_def drop3_of_7 [OF l] Let_def add.assoc)
  then show ?thesis
    by (auto simp: pose_to_matrix_def Let_def)
qed

lemma poses_to_matrices_total:
  "\<forall>p\<in>set ps. well_formed_pose p \<Longrightarrow> \<exists>ms. poses_to_matrices ps = Inr ms"
proof (induction ps)
  case Nil
  then show ?case by simp
next
  case (Cons p ps)
  from Cons.prems pose_to_matrix_total [of p] obtain m where "pose_to_matrix p = Inr m"
    by auto
  moreover from Cons obtain ms where "poses_to_matrices ps = Inr ms"
    by auto
  ultimately show ?case by simp
qed

lemma transform_total:
  assumes "well_formed_pose current" and "\<forall>p\<in>set ps. well_formed_pose p"
    and "well_formed_pose target"
  shows "\<exists>r. transform_poses ps current = Inr r"
    and "\<exists>r. transform_waypoints ps current = Inr r"
    and "\<exists>r. transform_target_pose target current = Inr r"
proof -
  from pose_to_matrix_total [OF assms(1)] obtain cm where c: "pose_to_matrix current = Inr cm"
    by blast
  from poses_to_matrices_total [OF assms(2)] obtain ms where m: "poses_to_matrices ps = Inr ms"
    by blast
  from pose_to_matrix_total [OF assms(3)] obtain tm where t: "pose_to_matrix target = Inr tm"
    by blast
  show "\<exists>r. transform_poses ps current = Inr r"
    by (simp add: transform_poses_def c m Let_def)
  show "\<exists>r. transform_waypoints ps current = Inr r"
    by (simp add: transform_waypoints_def c m Let_def)
  show "\<exists>r. transform_target_pose target current = Inr r"
    by (simp add: transform_target_pose_def c t Let_def)
qed

lemma noised_row_well_formed:
  assumes "well_formed_pose p"
  shows "well_formed_pose (map2 (+) (take 3 p) [a, b, c] @ drop 3 p)"
proof -
  from assms have l: "length p = 7" by (simp add: well_formed_pose_def)
  have "map2 (+) (take 3 p) [a, b, c] @ drop 3 p =
        [p ! 0 + a, p ! 1 + b, p ! 2 + c, p ! 3, p ! 4, p ! 5, p ! 6]"
    by (simp add: take3_of_7 [OF l] drop3_of_7 [OF l])
  with assms show ?thesis
    by (simp add: well_formed_pose_def)
qed

lemma add_noise_well_formed:
  assumes "\<forall>p\<in>set input. well_formed_pose p"
  shows "\<forall>p\<in>set (add_noise input noise). well_formed_pose p"
proof -
  have "well_formed_pose (map2 (+) (take 3 p) [noise i 0, noise i 1, noise i 2] @ drop 3 p)"
    if "(i, p) \<in> set (enumerate 0 input)" for i p
  proof -
    from that have "p \<in> set input"
      by (auto simp: in_set_enumerate_eq)
    with assms noised_row_well_formed show ?thesis by blast
  qed
  then show ?thesis
    by (auto simp: add_noise_def)
qed


lemma set_py_slice: "set (py_slice xs a b) \<subseteq> set xs"
proof -
  have "set (take n (drop k xs)) \<subseteq> set xs" for n k
    using set_take_subset [of n "drop k xs"] set_drop_subset [of k xs] by blast
  then show ?thesis
    by (simp add: py_slice_def Let_def)
qed

lemma cw_sample_total:
  assumes "input \<noteq> []" and "\<forall>p\<in>set input. well_formed_pose p"
    and "\<forall>p\<in>set pose. well_formed_pose p" and "well_formed_pose (future ! nat t)"
  shows "\<exists>s. cw_sample cfg mode pose pose_start input future noise t = Inr s"
proof -
  let ?noised = "if input_noise cfg > 0 then add_noise input noise else input"
  have w: "\<forall>p\<in>set ?noised. well_formed_pose p"
    using assms(2) add_noise_well_formed [OF assms(2), of noise] by simp
  have ne: "?noised \<noteq> []"
    using assms(1) by (cases input) (simp_all add: add_noise_def)
  then have c: "well_formed_pose (last ?noised)"
    using w last_in_set by blast
  have wp: "\<forall>p\<in>set (extract_waypoints cfg pose pose_start). well_formed_pose p"
  proof -
    have "set (extract_waypoints cfg pose pose_start) \<subseteq> set pose"
      unfolding extract_waypoints_def Let_def by (rule set_py_slice)
    with assms(3) show ?thesis by blast
  qed
  from transform_total(1) [OF c w assms(4)] obtain ti where
    1: "transform_poses ?noised (last ?noised) = Inr ti" by blast
  from transform_total(1) [OF c assms(2) assms(4)] obtain torig where
    2: "transform_poses input (last ?noised) = Inr torig" by blast
  from transform_total(2) [OF c wp assms(4)] obtain wps where
    3: "transform_waypoints (extract_waypoints cfg pose pose_start) (last ?noised) = Inr wps"
    by blast
  from transform_total(3) [OF c w assms(4)] obtain tgt where
    4: "transform_target_pose (future ! nat t) (last ?noised) = Inr tgt" by blast
  from assms(1) have pl: "py_last input = Inr (last input)"
    by (simp add: py_last_def)
  show ?thesis
    unfolding cw_sample_def Let_def pl using 1 2 3 4 by simp
qed

text \<open>
  A request at a valid offset of a sequence of well-formed poses, with a context of at
  least one pose and a search window of at least one pose, returns a sample for every
  target offset \<open>0, \<dots>, search_window - 1\<close>.
\<close>

lemma cw_getitem_total:
  assumes "\<forall>p\<in>set pose. well_formed_pose p"
    and "1 \<le> context_size cfg" and "1 \<le> search_window cfg"
    and "int pose_start < usable_count cfg pose"
  shows "\<exists>outcomes. cw_getitem cfg mode pose pose_start noise = Inr outcomes \<and>
           map fst outcomes = [0..search_window cfg - 1] \<and>
           (\<forall>(t, res)\<in>set outcomes. \<exists>s. res = Inr s)"
proof -
  from assms(2) have c0: "0 \<le> context_size cfg" by simp
  note f = future_window_full [OF c0 assms(3,4)]
  define input where "input = py_slice pose (int pose_start) (int pose_start + context_size cfg)"
  define future where "future = py_slice pose (int pose_start + context_size cfg)
                   (int pose_start + context_size cfg + search_window cfg)"
  have li: "length input = nat (context_size cfg)" and lf: "length future = nat (search_window cfg)"
    using f by (simp_all add: input_def future_def)
  from li assms(2) have ine: "input \<noteq> []" by auto
  from lf assms(3) have fne: "future \<noteq> []" by auto
  have g: "get_input_and_future_poses cfg pose pose_start = Inr (input, future)"
    using fne f(2) by (simp add: get_input_and_future_poses_def Let_def input_def future_def)
  have r: "randint 0 (int (length future) - 1) = Inr [0..search_window cfg - 1]"
    using lf assms(3) by (simp add: randint_def)
  have "set input \<subseteq> set pose" "set future \<subseteq> set pose"
    unfolding input_def future_def by (rule set_py_slice)+
  with assms(1) have wi: "\<forall>p\<in>set input. well_formed_pose p"
    and wf: "\<forall>p\<in>set future. well_formed_pose p"
    by blast+
  have "\<exists>s. cw_sample cfg mode pose pose_start input future noise t = Inr s"
    if "t \<in> set [0..search_window cfg - 1]" for t
  proof -
    from that lf have "nat t < length future" by auto
    with wf have "well_formed_pose (future ! nat t)" by simp
    from cw_sample_total [OF ine wi assms(1) this] show ?thesis .
  qed
  then have a: "\<forall>(t, res)\<in>set (map (\<lambda>t. (t, cw_sample cfg mode pose pose_start input future noise t))
                         [0..search_window cfg - 1]). \<exists>s. res = Inr s"
    by auto
  have e: "cw_getitem cfg mode pose pose_start noise =
        Inr (map (\<lambda>t. (t, cw_sample cfg mode pose pose_start input future noise t))
               [0..search_window cfg - 1])"
    by (simp add: cw_getitem_def g r)
  have m: "map fst (map (\<lambda>t. (t, cw_sample cfg mode pose pose_start input future noise t))
               [0..search_window cfg - 1]) = [0..search_window cfg - 1]"
    by (simp add: comp_def)
  from e m a show ?thesis by blast
qed

subsection \<open>Target selection of the robot source\<close>

text \<open>
  \<^verbatim>\<open>
  def select_target_index(self, future_positions):
      arrived = np.random.rand() < self.arrived_prob
      max_idx = future_positions.shape[0] - 1
      if arrived:
          target_idx = random.randint(self.wp_length, min(self.wp_length + self.arrived_threshold, max_idx))
      else:
          target_idx = random.randint(self.wp_length + self.arrived_threshold, max_idx)
      return target_idx, arrived
  \<close>
  \<open>u\<close> is the value of \<^verbatim>\<open>np.random.rand()\<close>, uniform on \<open>[0, 1)\<close>; the result holds the equally
  likely values of \<^verbatim>\<open>target_idx\<close> and the label (\<open>arrived_label\<close> for \<^verbatim>\<open>arrived\<close>).
\<close>

definition select_target_index ::
  "(int, 'z) config_scheme \<Rightarrow> 'row list \<Rightarrow> real \<Rightarrow> py_error + (int list \<times> bool)" where
  "select_target_index cfg future_positions u =
     (let arrived_label = (u < arrived_prob cfg);
          max_idx = int (length future_positions) - 1
      in if arrived_label
         then (case randint (wp_length cfg) (min (wp_length cfg + arrived_threshold cfg) max_idx) of
                 Inl e \<Rightarrow> Inl e
               | Inr targets \<Rightarrow> Inr (targets, arrived_label))
         else (case randint (wp_length cfg + arrived_threshold cfg) max_idx of
                 Inl e \<Rightarrow> Inl e
               | Inr targets \<Rightarrow> Inr (targets, arrived_label)))"

text \<open>Lines 167 to 173 of \<^verbatim>\<open>UrbanNavDataset.__getitem__\<close>: the windows, then the selection.\<close>

definition un_select_target ::
  "(int, 'z) config_scheme \<Rightarrow> 'row list \<Rightarrow> nat \<Rightarrow> real \<Rightarrow> py_error + (int list \<times> bool)" where
  "un_select_target cfg gps pose_start u =
     (case get_input_and_future_gps cfg gps pose_start of
        Inl e \<Rightarrow> Inl e
      | Inr (input_gps_positions, future_gps_positions) \<Rightarrow>
          select_target_index cfg future_gps_positions u)"

lemma select_target_index_eq:
  "select_target_index cfg future u =
     (if u < arrived_prob cfg
      then (if wp_length cfg \<le> min (wp_length cfg + arrived_threshold cfg) (int (length future) - 1)
            then Inr ([wp_length cfg..min (wp_length cfg + arrived_threshold cfg)
                                        (int (length future) - 1)], True)
            else Inl ValueError)
      else (if wp_length cfg + arrived_threshold cfg \<le> int (length future) - 1
            then Inr ([wp_length cfg + arrived_threshold cfg..int (length future) - 1], False)
            else Inl ValueError))"
  by (simp add: select_target_index_def randint_def Let_def)

lemma reachable_gps_window:
  assumes "0 \<le> context_size cfg" and "1 \<le> search_window cfg"
    and "parse_file py_float lines = Inr st"
    and "int pose_start < usable_count cfg (poses st)"
  shows "\<exists>input_gps future_gps.
           get_input_and_future_gps cfg (gps_positions st) pose_start =
             Inr (input_gps, future_gps) \<and>
           length future_gps = nat (search_window cfg)"
proof -
  from parse_file_lengths [OF assms(3)] assms(4)
  have "int pose_start < usable_count cfg (gps_positions st)"
    by (simp add: usable_count_def)
  note f = future_window_full [OF assms(1,2) this]
  from assms(2) have "nat (search_window cfg) \<noteq> 0" by simp
  with f show ?thesis
    by (auto simp: get_input_and_future_gps_def Let_def)
qed

text \<open>
  Claim C7, as amended. For a future window of length \<open>L\<close> the label is the event
  \<open>u < arrived_prob\<close> of the uniform draw \<open>u\<close> (the interval \<open>[0, arrived_prob)\<close> of the unit
  interval, so of probability \<open>arrived_prob\<close>); when it holds the target offset is one of
  the equally likely integers of \<open>[wp, min(wp + thr, L - 1)]\<close>, otherwise of
  \<open>[wp + thr, L - 1]\<close>, and the selection raises \<^verbatim>\<open>ValueError\<close> when that range is empty. For
  a reachable request (offset below the usable count, \<open>context_size \<ge> 0\<close>,
  \<open>search_window \<ge> 1\<close>) the window is full, \<open>L = search_window\<close>: the selection succeeds
  when arrived exactly if \<open>thr \<ge> 0\<close> and \<open>wp \<le> search_window - 1\<close>, and when not arrived
  exactly if \<open>wp + thr \<le> search_window - 1\<close>.
\<close>

theorem robot_target_selection:
  "select_target_index cfg future u =
     (if u < arrived_prob cfg
      then (if wp_length cfg \<le> min (wp_length cfg + arrived_threshold cfg) (int (length future) - 1)
            then Inr ([wp_length cfg..min (wp_length cfg + arrived_threshold cfg)
                                        (int (length future) - 1)], True)
            else Inl ValueError)
      else (if wp_length cfg + arrived_threshold cfg \<le> int (length future) - 1
            then Inr ([wp_length cfg + arrived_threshold cfg..int (length future) - 1], False)
            else Inl ValueError)) \<and>
   (0 \<le> arrived_prob cfg \<and> arrived_prob cfg \<le> 1 \<longrightarrow>
      {u. 0 \<le> u \<and> u < 1 \<and> u < arrived_prob cfg} = {0..<arrived_prob cfg}) \<and>
   (0 \<le> context_size cfg \<and> 1 \<le> search_window cfg \<and>
    parse_file py_float lines = Inr st \<and> int pose_start < usable_count cfg (poses st) \<longrightarrow>
      un_select_target cfg (gps_positions st) pose_start u =
        (if u < arrived_prob cfg
         then (if 0 \<le> arrived_threshold cfg \<and> wp_length cfg \<le> search_window cfg - 1
               then Inr ([wp_length cfg..min (wp_length cfg + arrived_threshold cfg)
                                           (search_window cfg - 1)], True)
               else Inl ValueError)
         else (if wp_length cfg + arrived_threshold cfg \<le> search_window cfg - 1
               then Inr ([wp_length cfg + arrived_threshold cfg..search_window cfg - 1], False)
               else Inl ValueError)))"
proof (intro conjI impI)
  show "select_target_index cfg future u =
     (if u < arrived_prob cfg
      then (if wp_length cfg \<le> min (wp_length cfg + arrived_threshold cfg) (int (length future) - 1)
            then Inr ([wp_length cfg..min (wp_length cfg + arrived_threshold cfg)
                                        (int (length future) - 1)], True)
            else Inl ValueError)
      else (if wp_length cfg + arrived_threshold cfg \<le> int (length future) - 1
            then Inr ([wp_length cfg + arrived_threshold cfg..int (length future) - 1], False)
            else Inl ValueError))"
    by (rule select_target_index_eq)
next
  assume "0 \<le> arrived_prob cfg \<and> arrived_prob cfg \<le> 1"
  then show "{u. 0 \<le> u \<and> u < 1 \<and> u < arrived_prob cfg} = {0..<arrived_prob cfg}"
    by auto
next
  assume a: "0 \<le> context_size cfg \<and> 1 \<le> search_window cfg \<and>
    parse_file py_float lines = Inr st \<and> int pose_start < usable_count cfg (poses st)"
  with reachable_gps_window [of cfg py_float lines st pose_start]
  obtain input_gps future_gps where
    g: "get_input_and_future_gps cfg (gps_positions st) pose_start = Inr (input_gps, future_gps)"
    and l: "length future_gps = nat (search_window cfg)"
    by blast
  from a l have "int (length future_gps) = search_window cfg" by simp
  then show "un_select_target cfg (gps_positions st) pose_start u =
        (if u < arrived_prob cfg
         then (if 0 \<le> arrived_threshold cfg \<and> wp_length cfg \<le> search_window cfg - 1
               then Inr ([wp_length cfg..min (wp_length cfg + arrived_threshold cfg)
                                           (search_window cfg - 1)], True)
               else Inl ValueError)
         else (if wp_length cfg + arrived_threshold cfg \<le> search_window cfg - 1
               then Inr ([wp_length cfg + arrived_threshold cfg..search_window cfg - 1], False)
               else Inl ValueError))"
    by (simp add: un_select_target_def g select_target_index_eq)
qed


theorem robot_target_selection_witness:
  "parse_file example_float (example_lines []) =
     Inr \<lparr>gps_positions = [[0, 0, 0], [0, 0, 0], [0, 0, 0]],
          poses = [[0, 0, 0, 0, 0, 0, 1], [1, 0, 0, 0, 0, 0, 1], [1, 1, 0, 0, 0, 0, 1]],
          images = [''a.jpg'', ''b.jpg'', ''c.jpg''],
          ref = Some (1, 1, 0)\<rparr> \<and>
   un_select_target ((example_cfg (0::int))\<lparr>wp_length := 0\<rparr>)
     [[0, 0, 0], [0, 0, 0], [0, 0, 0 :: real]] 0 (1 / 4) = Inr ([0], True) \<and>
   un_select_target ((example_cfg (0::int))\<lparr>wp_length := 0\<rparr>)
     [[0, 0, 0], [0, 0, 0], [0, 0, 0 :: real]] 0 (3 / 4) = Inr ([0], False) \<and>
   select_target_index ((example_cfg (2::int))\<lparr>wp_length := 3\<rparr>) [0, 1, 2, 3, 4, 5, 6, 7 :: nat] (1 / 4) =
     Inr ([3, 4, 5], True) \<and>
   select_target_index ((example_cfg (2::int))\<lparr>wp_length := 3\<rparr>) [0, 1, 2, 3, 4, 5, 6, 7 :: nat] (3 / 4) =
     Inr ([5, 6, 7], False) \<and>
   {u :: real. 0 \<le> u \<and> u < 1 \<and> u < 1 / 2} = {0..<1 / 2}"
proof -
  have u: "[3..5] = [3, 4, 5 :: int]" "[5..7] = [5, 6, 7 :: int]" "[0..0] = [0 :: int]"
    by (simp_all add: upto.simps)
  note p = example_parse_file [of "[]"]
  have a: "un_select_target ((example_cfg (0::int))\<lparr>wp_length := 0\<rparr>)
     [[0, 0, 0], [0, 0, 0], [0, 0, 0 :: real]] 0 (1 / 4) = Inr ([0], True)"
    using robot_target_selection
      [of "(example_cfg (0::int))\<lparr>wp_length := 0\<rparr>" "[] :: nat list" "1 / 4" example_float "example_lines []"
        "\<lparr>gps_positions = [[0, 0, 0], [0, 0, 0], [0, 0, 0]],
          poses = [[0, 0, 0, 0, 0, 0, 1], [1, 0, 0, 0, 0, 0, 1], [1, 1, 0, 0, 0, 0, 1]],
          images = [''a.jpg'', ''b.jpg'', ''c.jpg''],
          ref = Some (1, 1, 0)\<rparr>" 0] p
    by (simp add: example_cfg_def usable_count_def u)
  have b: "un_select_target ((example_cfg (0::int))\<lparr>wp_length := 0\<rparr>)
     [[0, 0, 0], [0, 0, 0], [0, 0, 0 :: real]] 0 (3 / 4) = Inr ([0], False)"
    using robot_target_selection
      [of "(example_cfg (0::int))\<lparr>wp_length := 0\<rparr>" "[] :: nat list" "3 / 4" example_float "example_lines []"
        "\<lparr>gps_positions = [[0, 0, 0], [0, 0, 0], [0, 0, 0]],
          poses = [[0, 0, 0, 0, 0, 0, 1], [1, 0, 0, 0, 0, 0, 1], [1, 1, 0, 0, 0, 0, 1]],
          images = [''a.jpg'', ''b.jpg'', ''c.jpg''],
          ref = Some (1, 1, 0)\<rparr>" 0] p
    by (simp add: example_cfg_def usable_count_def u)
  have c: "select_target_index ((example_cfg (2::int))\<lparr>wp_length := 3\<rparr>)
             [0, 1, 2, 3, 4, 5, 6, 7 :: nat] (1 / 4) = Inr ([3, 4, 5], True)"
    using robot_target_selection
      [of "(example_cfg (2::int))\<lparr>wp_length := 3\<rparr>" "[0, 1, 2, 3, 4, 5, 6, 7 :: nat]" "1 / 4",
        THEN conjunct1]
    by (simp add: example_cfg_def u)
  have d: "select_target_index ((example_cfg (2::int))\<lparr>wp_length := 3\<rparr>)
             [0, 1, 2, 3, 4, 5, 6, 7 :: nat] (3 / 4) = Inr ([5, 6, 7], False)"
    using robot_target_selection
      [of "(example_cfg (2::int))\<lparr>wp_length := 3\<rparr>" "[0, 1, 2, 3, 4, 5, 6, 7 :: nat]" "3 / 4",
        THEN conjunct1]
    by (simp add: example_cfg_def u)
  have e: "{u :: real. 0 \<le> u \<and> u < 1 \<and> u < 1 / 2} = {0..<1 / 2}"
    using robot_target_selection
      [of "example_cfg (2::int)" "[] :: nat list" 0, THEN conjunct2, THEN conjunct1]
    by (simp add: example_cfg_def)
  from p a b c d e show ?thesis by simp
qed

text \<open>
  The claim as stated fails for reachable requests: with \<open>context_size = 5\<close>,
  \<open>wp_length = 8\<close>, \<open>search_window = 10\<close> and \<open>arrived_threshold = 5\<close>, a sequence of 100
  fixes has 85 usable offsets, every future window has 10 entries, and a request
  that is not labelled arrived calls \<^verbatim>\<open>random.randint(13, 9)\<close>.
\<close>

theorem robot_target_selection_counterexample:
  "usable_count
     \<lparr>context_size = 5, wp_length = 8, search_window = 10, video_fps = 30, pose_fps = 5,
      target_fps = 5, input_noise = 0, arrived_threshold = (5::int), arrived_prob = 1 / 2,
      num_train = 1, num_val = 0, num_test = 0\<rparr> (replicate 100 [0, 0, 0 :: real]) = 85 \<and>
   un_select_target
     \<lparr>context_size = 5, wp_length = 8, search_window = 10, video_fps = 30, pose_fps = 5,
      target_fps = 5, input_noise = 0, arrived_threshold = (5::int), arrived_prob = 1 / 2,
      num_train = 1, num_val = 0, num_test = 0\<rparr> (replicate 100 [0, 0, 0 :: real]) 0 (3 / 4) =
     Inl ValueError"
  by (simp add: usable_count_def un_select_target_def get_input_and_future_gps_def py_slice_def
      slice_index_def select_target_index_eq Let_def)

end
